theory Spec2Isabelle
  imports Main "HOL-Library.AList" "HOL-Library.Sublist"
begin

section \<open>Values, errors and promises\<close>

text \<open>
  The class \<open>Workspace\<close> of \<open>workspace.ts\<close> orchestrates calls to collaborators (the
  GitHub connection, git sessions, the file system, child processes) and keeps the
  bookkeeping of which repository survived which phase. The embedding keeps the
  orchestration as the source writes it and takes every collaborator as a parameter.

  A thrown JavaScript value is an \<open>error\<close>: the collaborators are taken to throw, and
  to reject with, \<open>Error\<close> objects. An \<open>async\<close> function ends in one of the three
  states of its promise: fulfilled with a value, rejected with the thrown error, or
  pending for ever.
\<close>

datatype error = Error string | TypeError string

fun message :: "error \<Rightarrow> string" where
  "message (Error m) = m"
| "message (TypeError m) = m"

datatype 'a promise = Fulfilled 'a | Rejected error | Pending

fun settle :: "error + 'a \<Rightarrow> 'a promise" where
  "settle (Inl e) = Rejected e"
| "settle (Inr x) = Fulfilled x"

text \<open>
  \<open>await m k\<close> is \<open>const x = await m; k x\<close> inside an \<open>async\<close> function: a rejection of
  \<open>m\<close> rejects the whole function, and a promise that never settles leaves it pending.
\<close>

definition await :: "('s \<Rightarrow> 'a promise \<times> 's) \<Rightarrow> ('a \<Rightarrow> 's \<Rightarrow> 'b promise \<times> 's) \<Rightarrow> 's \<Rightarrow> 'b promise \<times> 's" where
  "await m k s =
     (case m s of
        (Fulfilled x, s') \<Rightarrow> k x s'
      | (Rejected e, s') \<Rightarrow> (Rejected e, s')
      | (Pending, s') \<Rightarrow> (Pending, s'))"

subsection \<open>The fragment of JavaScript the source relies on\<close>

text \<open>
  \<open>Array.prototype.map(callbackfn)\<close> calls \<open>callbackfn\<close> once per element, in order, with
  the arguments \<open>(element, index, array)\<close> and, no \<open>thisArg\<close> being given, with
  \<open>this = undefined\<close>. An exception of the callback ends the loop.
  \<open>String.prototype.toLowerCase\<close> converts its \<open>this\<close> value and ignores its arguments;
  it throws a \<open>TypeError\<close> when \<open>this\<close> is \<open>undefined\<close>. The conversion itself
  follows the case mapping of Unicode, which is not modelled: it is the parameter
  \<open>lower\<close>, and nothing is assumed about it.
\<close>

datatype jsval = JSUndefined | JSString string

definition String_prototype_toLowerCase :: "(string \<Rightarrow> string) \<Rightarrow> jsval \<Rightarrow> string \<Rightarrow> nat \<Rightarrow> string list \<Rightarrow> error + string" where
  "String_prototype_toLowerCase lower this element index array =
     (case this of
        JSUndefined \<Rightarrow> Inl (TypeError ''String.prototype.toLowerCase called on null or undefined'')
      | JSString s \<Rightarrow> Inr (lower s))"

fun Array_map_from :: "(jsval \<Rightarrow> 'a \<Rightarrow> nat \<Rightarrow> 'a list \<Rightarrow> error + 'b) \<Rightarrow> 'a list \<Rightarrow> nat \<Rightarrow> 'a list \<Rightarrow> error + 'b list" where
  "Array_map_from callbackfn array k [] = Inr []"
| "Array_map_from callbackfn array k (x # xs) =
     (case callbackfn JSUndefined x k array of
        Inl e \<Rightarrow> Inl e
      | Inr y \<Rightarrow>
          (case Array_map_from callbackfn array (Suc k) xs of
             Inl e \<Rightarrow> Inl e
           | Inr ys \<Rightarrow> Inr (y # ys)))"

definition Array_map :: "(jsval \<Rightarrow> 'a \<Rightarrow> nat \<Rightarrow> 'a list \<Rightarrow> error + 'b) \<Rightarrow> 'a list \<Rightarrow> error + 'b list" where
  "Array_map callbackfn array = Array_map_from callbackfn array 0 array"

text \<open>\<open>Array.prototype.includes\<close> on strings is membership.\<close>

definition Array_includes :: "'a list \<Rightarrow> 'a \<Rightarrow> bool" where
  "Array_includes xs x = List.member xs x"

section \<open>Data model\<close>

text \<open>
  Modelled from the spec: the repository reference and the repository metadata of
  \<open>github.ts\<close> (not among the sources), with the fields that \<open>workspace.ts\<close> reads. The
  spec's metadata is the name, the clone URL, the default branch and an optional pinned
  ref; a reference has a fully-qualified name.
\<close>

record GitHubRepoReference =
  fullName :: string

record GitHubRepo =
  name :: string
  cloneUrl :: string
  defaultBranch :: string
  ref :: "string option"

record GitHubRepoError =
  error :: error
  repoReference :: GitHubRepoReference

text \<open>A git session and an npm session are opened on a directory and keep nothing else.\<close>

datatype GitRepo = GitRepo string
datatype NpmPackage = NpmPackage string

text \<open>
  A \<open>WorkspaceRepo\<close> is a JavaScript object, and the \<open>Map\<close>s of the source compare their
  keys by reference. The field \<open>oid\<close> is that reference: \<open>openWorkspaceRepo\<close> gives every
  object it creates a fresh one.
\<close>

record WorkspaceRepo =
  oid :: nat
  dir :: string
  git :: GitRepo
  npm :: NpmPackage
  github :: GitHubRepo

record WorkspaceInitOptions =
  fresh :: bool
  verbose :: bool

record Patterns =
  includePatterns :: "string list"
  excludePatterns :: "string list option"

text \<open>
  Modelled from the spec: the merged manifest of \<open>util/bower\<close> (not among the sources);
  the spec's manifest lists the workspace repos as dependencies and the union of the
  declared development dependencies. A JavaScript object keeps its string keys in
  insertion order, assignment to an existing key keeps its place: an association list
  under \<open>AList.update\<close>.
\<close>

record BowerConfig =
  dependencies :: "(string \<times> string) list"
  devDependencies :: "(string \<times> string) list"

text \<open>What \<open>fs.writeFileSync\<close> is given: a literal text, or \<open>JSON.stringify\<close> of a manifest.\<close>

datatype file_content = Text string | JSON_stringify BowerConfig

text \<open>Modelled from the spec: the captured output of a process (\<open>util/exec\<close>), as standard
  output and standard error.\<close>

type_synonym ExecResult = "string \<times> string"

datatype git_method =
    Fetch
  | DestroyAllUncommittedChangesAndFiles
  | Clone string
  | Checkout string
  | CreateBranch string
  | Commit string
  | PushCurrentBranchToOrigin "string option" bool

section \<open>Collaborators and the trace of their calls\<close>

text \<open>
  The world outside (disk, network, processes) is a value of an arbitrary type \<open>'w\<close>.
  A collaborator is a function from its arguments and the world to its outcome and the
  world after the call; a call that throws or rejects returns \<open>Inl\<close>. Nothing is assumed
  about the collaborators: every theorem holds for every \<open>'w\<close> and every such function.
  The three concurrency presets are constants of \<open>util/batch-process\<close>, which is not among
  the sources; they are parameters too, and so are \<open>path.resolve\<close> and \<open>path.join\<close> of
  the Node library and the case conversion \<open>toLowerCase\<close> of the language. A call of a
  collaborator always settles.
\<close>

record 'w collaborators =
  checkCommand :: "string \<Rightarrow> 'w \<Rightarrow> bool \<times> 'w"
  expandRepoPatterns :: "string list \<Rightarrow> 'w \<Rightarrow> (error + GitHubRepoReference list) \<times> 'w"
  getRepoInfo :: "GitHubRepoReference \<Rightarrow> 'w \<Rightarrow> (error + GitHubRepo) \<times> 'w"
  existsSync :: "string \<Rightarrow> 'w \<Rightarrow> bool \<times> 'w"
  mkdirSync :: "string \<Rightarrow> 'w \<Rightarrow> (error + unit) \<times> 'w"
  writeFileSync :: "string \<Rightarrow> file_content \<Rightarrow> 'w \<Rightarrow> (error + unit) \<times> 'w"
  rimraf :: "string \<Rightarrow> 'w \<Rightarrow> (error + unit) \<times> 'w"
  isGit :: "GitRepo \<Rightarrow> 'w \<Rightarrow> bool \<times> 'w"
  gitCall :: "GitRepo \<Rightarrow> git_method \<Rightarrow> 'w \<Rightarrow> (error + ExecResult) \<times> 'w"
  getHeadSha :: "GitRepo \<Rightarrow> 'w \<Rightarrow> (error + string) \<times> 'w"
  publishToNpm :: "NpmPackage \<Rightarrow> string \<Rightarrow> 'w \<Rightarrow> (error + ExecResult) \<times> 'w"
  mergedBowerConfigsFromRepos :: "WorkspaceRepo list \<Rightarrow> 'w \<Rightarrow> (error + BowerConfig) \<times> 'w"
  exec :: "string \<Rightarrow> string \<Rightarrow> string list \<Rightarrow> nat \<Rightarrow> 'w \<Rightarrow> (error + ExecResult) \<times> 'w"
  path_resolve :: "string \<Rightarrow> string \<Rightarrow> string"
  path_join :: "string \<Rightarrow> string \<Rightarrow> string"
  toLowerCase :: "string \<Rightarrow> string"
  fsConcurrencyPreset :: nat
  githubConcurrencyPreset :: nat
  npmPublishConcurrencyPreset :: nat

text \<open>
  Every call of a collaborator, and every line written to the console, is recorded with
  its arguments and its outcome, in the order of the calls. The trace is how a theorem
  says that a call was made, was not made, or failed.
\<close>

datatype event =
    CheckCommand string bool
  | ExpandRepoPatterns "string list" "error + GitHubRepoReference list"
  | GetRepoInfo GitHubRepoReference "error + GitHubRepo"
  | ExistsSync string bool
  | MkdirSync string "error + unit"
  | WriteFileSync string file_content "error + unit"
  | Rimraf string "error + unit"
  | IsGit GitRepo bool
  | GitCall GitRepo git_method "error + ExecResult"
  | GetHeadSha GitRepo "error + string"
  | PublishToNpm NpmPackage string "error + ExecResult"
  | MergedBowerConfigsFromRepos "WorkspaceRepo list" "error + BowerConfig"
  | Exec string string "string list" nat "error + ExecResult"
  | CallerFn WorkspaceRepo "error + unit"
  | ConsoleLog string

record 'w runtime =
  next_oid :: nat
  trace :: "event list"
  world :: 'w

definition invoke :: "('r \<Rightarrow> event) \<Rightarrow> ('w \<Rightarrow> 'r \<times> 'w) \<Rightarrow> 'w runtime \<Rightarrow> 'r \<times> 'w runtime" where
  "invoke ev f rt =
     (case f (world rt) of (r, w') \<Rightarrow> (r, rt\<lparr>trace := trace rt @ [ev r], world := w'\<rparr>))"

definition invokeP :: "(error + 'r \<Rightarrow> event) \<Rightarrow> ('w \<Rightarrow> (error + 'r) \<times> 'w) \<Rightarrow> 'w runtime \<Rightarrow> 'r promise \<times> 'w runtime" where
  "invokeP ev f rt = (case invoke ev f rt of (r, rt') \<Rightarrow> (settle r, rt'))"

definition console_log :: "string \<Rightarrow> 'w runtime \<Rightarrow> 'w runtime" where
  "console_log msg rt = rt\<lparr>trace := trace rt @ [ConsoleLog msg]\<rparr>"

section \<open>The Workspace object\<close>

record Workspace =
  wdir :: string
  initializedRepos :: "WorkspaceRepo list option"

record WorkspaceOptions =
  token :: string
  optdir :: string

definition Workspace_new :: "WorkspaceOptions \<Rightarrow> Workspace" where
  "Workspace_new options = \<lparr>wdir = optdir options, initializedRepos = None\<rparr>"

text \<open>\<open>!!this._initializedRepos\<close>: \<open>undefined\<close> is falsy, every array (the empty one too) is truthy.\<close>

definition isInitialized :: "Workspace \<Rightarrow> bool" where
  "isInitialized this = (case initializedRepos this of None \<Rightarrow> False | Some repos \<Rightarrow> True)"

definition assertInitialized :: "Workspace \<Rightarrow> error + unit" where
  "assertInitialized this =
     (if \<not> isInitialized this
      then Inl (Error ''Workspace has not been initialized, run init() first.'')
      else Inr ())"

subsection \<open>Resolving the repositories\<close>

text \<open>
  \<open>Promise.all(repoRefs.map(async (repoRef) => ...))\<close>: one \<open>getRepoInfo\<close> per reference,
  started in the order of the array; the \<open>try\<close>/\<open>catch\<close> turns a rejection into a
  \<open>GitHubRepoError\<close>, so the combined promise never rejects, and its results keep the
  order of the array.
\<close>

fun getRepoInfos :: "'w collaborators \<Rightarrow> GitHubRepoReference list \<Rightarrow> 'w runtime \<Rightarrow> (GitHubRepoError + GitHubRepo) list \<times> 'w runtime" where
  "getRepoInfos env [] rt = ([], rt)"
| "getRepoInfos env (repoRef # repoRefs) rt =
     (case invoke (GetRepoInfo repoRef) (getRepoInfo env repoRef) rt of
        (r, rt1) \<Rightarrow>
          (case getRepoInfos env repoRefs rt1 of
             (rs, rt2) \<Rightarrow>
               ((case r of
                   Inl err \<Rightarrow> Inl \<lparr>error = err, repoReference = repoRef\<rparr>
                 | Inr repo \<Rightarrow> Inr repo) # rs, rt2)))"

text \<open>The final \<open>filter\<close>: an error entry is logged and dropped, a repository is kept.\<close>

fun filterFound :: "(GitHubRepoError + GitHubRepo) list \<Rightarrow> 'w runtime \<Rightarrow> GitHubRepo list \<times> 'w runtime" where
  "filterFound [] rt = ([], rt)"
| "filterFound (Inl repoResponse # rs) rt =
     (filterFound rs
        (console_log (''Repo not found: '' @ fullName (repoReference repoResponse)
                        @ '' ('' @ message (error repoResponse) @ '')'') rt))"
| "filterFound (Inr repo # rs) rt =
     (case filterFound rs rt of (repos, rt') \<Rightarrow> (repo # repos, rt'))"

definition determineGitHubRepos :: "'w collaborators \<Rightarrow> string list \<Rightarrow> string list option \<Rightarrow> 'w runtime \<Rightarrow> GitHubRepo list promise \<times> 'w runtime" where
  "determineGitHubRepos env repoPatterns excludes_arg rt =
     (let excludes = (case excludes_arg of None \<Rightarrow> [] | Some xs \<Rightarrow> xs) in
      case Array_map (String_prototype_toLowerCase (toLowerCase env)) excludes of
        Inl e \<Rightarrow> (Rejected e, rt)
      | Inr excludes' \<Rightarrow>
          await (invokeP (ExpandRepoPatterns repoPatterns) (expandRepoPatterns env repoPatterns))
            (\<lambda>repoRefs rt1.
               let repoRefs' = filter (\<lambda>repoRef. \<not> Array_includes excludes' (toLowerCase env (fullName repoRef))) repoRefs in
               case getRepoInfos env repoRefs' rt1 of
                 (githubReposMaybe, rt2) \<Rightarrow>
                   (case filterFound githubReposMaybe rt2 of
                      (repos, rt3) \<Rightarrow> (Fulfilled repos, rt3)))
            rt)"


section \<open>The batch executor\<close>

text \<open>
  Modelled from the spec: \<open>batchProcess\<close> of \<open>util/batch-process\<close>, which is not among
  the sources. The spec (4.1): operations are launched with at most \<open>concurrency\<close> of
  them in flight; as soon as one completes, the next pending item is started (a sliding
  window); a failure of an operation is caught and recorded and touches no other item;
  the call resolves once every item has produced its outcome; the order of the entries
  of the two output mappings is unspecified. The result is the object
  \<open>{successes, failures}\<close> that \<open>init\<close> reads, two \<open>Map\<close>s: association lists in
  insertion order under \<open>AList.update\<close>, which is \<open>Map.prototype.set\<close>.

  Which operation in flight completes next is not determined by the program. It is the
  parameter \<open>sched\<close>: at every completion its head, modulo the number of operations in
  flight, picks the one that completes. The body of an operation runs as one step when
  it completes: the calls of two operations in flight are not interleaved, and the
  trace orders the events of a batch by completion. \<open>batch_loop\<close> holds the operations
  in flight (in launch order) and the items still waiting; after a completion it
  launches waiting items into the free places. With no operation in flight and items
  still waiting (a window of size 0) the call never resolves.
\<close>

record ('a, 'r) BatchProcessResponse =
  successes :: "('a \<times> 'r) list"
  failures :: "('a \<times> error) list"

definition record_outcome :: "'a \<Rightarrow> error + 'r \<Rightarrow> ('a, 'r) BatchProcessResponse \<Rightarrow> ('a, 'r) BatchProcessResponse" where
  "record_outcome item out acc =
     (case out of
        Inr v \<Rightarrow> acc\<lparr>successes := AList.update item v (successes acc)\<rparr>
      | Inl e \<Rightarrow> acc\<lparr>failures := AList.update item e (failures acc)\<rparr>)"

definition pick :: "nat list \<Rightarrow> nat \<Rightarrow> nat" where
  "pick sched n = (case sched of [] \<Rightarrow> 0 | k # ks \<Rightarrow> k mod n)"

function batch_loop :: "nat \<Rightarrow> ('a \<Rightarrow> 's \<Rightarrow> (error + 'r) \<times> 's) \<Rightarrow> nat list \<Rightarrow> 'a list \<Rightarrow> 'a list \<Rightarrow> ('a, 'r) BatchProcessResponse \<Rightarrow> 's \<Rightarrow> ('a, 'r) BatchProcessResponse promise \<times> 's" where
  "batch_loop concurrency op sched [] waiting acc s =
     (if waiting = [] then (Fulfilled acc, s) else (Pending, s))"
| "batch_loop concurrency op sched (w # ws) waiting acc s =
     (let i = pick sched (Suc (length ws));
          item = (w # ws) ! i;
          inflight = take i (w # ws) @ drop (Suc i) (w # ws)
      in case op item s of
           (out, s') \<Rightarrow>
             batch_loop concurrency op (tl sched)
               (inflight @ take (concurrency - length inflight) waiting)
               (drop (concurrency - length inflight) waiting)
               (record_outcome item out acc) s')"
  by pat_completeness auto
termination
proof (relation "measure (\<lambda>(concurrency, op, sched, window, waiting, acc, s). length window + length waiting)")
  show "wf (measure (\<lambda>(concurrency, op, sched, window, waiting, acc, s). length window + length waiting))"
    by simp
next
  fix concurrency :: nat and op :: "'a \<Rightarrow> 's \<Rightarrow> (error + 'r) \<times> 's" and sched :: "nat list"
    and w :: 'a and ws waiting inflight :: "'a list" and acc :: "('a, 'r) BatchProcessResponse"
    and s s' :: 's and i :: nat and item :: 'a and out :: "error + 'r"
  assume i: "i = pick sched (Suc (length ws))"
    and inflight: "inflight = take i (w # ws) @ drop (Suc i) (w # ws)"
  have "i < Suc (length ws)"
    by (simp add: i pick_def split: list.split)
  then have "length inflight = length ws"
    by (simp add: inflight)
  then show "((concurrency, op, tl sched, inflight @ take (concurrency - length inflight) waiting,
            drop (concurrency - length inflight) waiting, record_outcome item out acc, s'),
           (concurrency, op, sched, w # ws, waiting, acc, s))
        \<in> measure (\<lambda>(concurrency, op, sched, window, waiting, acc, s). length window + length waiting)"
    by simp
qed

definition batchProcess :: "nat list \<Rightarrow> 'a list \<Rightarrow> ('a \<Rightarrow> 's \<Rightarrow> (error + 'r) \<times> 's) \<Rightarrow> nat \<Rightarrow> 's \<Rightarrow> ('a, 'r) BatchProcessResponse promise \<times> 's" where
  "batchProcess sched items op concurrency s =
     batch_loop concurrency op sched (take concurrency items) (drop concurrency items)
       \<lparr>successes = [], failures = []\<rparr> s"


text \<open>The items that have an entry in one of the two mappings.\<close>

definition keys :: "('a, 'r) BatchProcessResponse \<Rightarrow> 'a set" where
  "keys res = fst ` set (successes res) \<union> fst ` set (failures res)"

section \<open>Initialization\<close>

text \<open>
  \<open>andThen m k\<close> sequences two awaited steps inside the body of a batch operation,
  whose rejection the batch executor catches.
\<close>

definition andThen :: "('s \<Rightarrow> (error + 'a) \<times> 's) \<Rightarrow> ('a \<Rightarrow> 's \<Rightarrow> (error + 'b) \<times> 's) \<Rightarrow> 's \<Rightarrow> (error + 'b) \<times> 's" where
  "andThen m k s = (case m s of (Inl e, s') \<Rightarrow> (Inl e, s') | (Inr x, s') \<Rightarrow> k x s')"

definition collectFailures :: "(WorkspaceRepo \<times> error) list \<Rightarrow> (WorkspaceRepo \<times> error) list \<Rightarrow> (WorkspaceRepo \<times> error) list" where
  "collectFailures collection failed =
     fold (\<lambda>(repo, err) collection. AList.update repo err collection) failed collection"

definition openWorkspaceRepo :: "Workspace \<Rightarrow> 'w collaborators \<Rightarrow> GitHubRepo \<Rightarrow> 'w runtime \<Rightarrow> WorkspaceRepo \<times> 'w runtime" where
  "openWorkspaceRepo this env repo rt =
     (let sessionDir = path_resolve env (wdir this) (name repo) in
      (\<lparr>oid = next_oid rt, dir = sessionDir, git = GitRepo sessionDir,
        npm = NpmPackage sessionDir, github = repo\<rparr>,
       rt\<lparr>next_oid := Suc (next_oid rt)\<rparr>))"

text \<open>\<open>githubRepos.map((r) => this._openWorkspaceRepo(r))\<close>\<close>

fun openWorkspaceRepos :: "Workspace \<Rightarrow> 'w collaborators \<Rightarrow> GitHubRepo list \<Rightarrow> 'w runtime \<Rightarrow> WorkspaceRepo list \<times> 'w runtime" where
  "openWorkspaceRepos this env [] rt = ([], rt)"
| "openWorkspaceRepos this env (r # rs) rt =
     (case openWorkspaceRepo this env r rt of
        (repo, rt1) \<Rightarrow>
          (case openWorkspaceRepos this env rs rt1 of (repos, rt2) \<Rightarrow> (repo # repos, rt2)))"

definition log_if :: "bool \<Rightarrow> string \<Rightarrow> 'w runtime \<Rightarrow> 'w runtime" where
  "log_if verbose_flag msg rt = (if verbose_flag then console_log msg rt else rt)"

definition prepareOp :: "'w collaborators \<Rightarrow> WorkspaceInitOptions \<Rightarrow> WorkspaceRepo \<Rightarrow> 'w runtime \<Rightarrow> (error + unit) \<times> 'w runtime" where
  "prepareOp env options repo rt =
     (case invoke (ExistsSync (dir repo)) (existsSync env (dir repo)) rt of
        (False, rt1) \<Rightarrow> (Inr (), rt1)
      | (True, rt1) \<Rightarrow>
          (case invoke (IsGit (git repo)) (isGit env (git repo)) rt1 of
             (True, rt2) \<Rightarrow> (Inr (), rt2)
           | (False, rt2) \<Rightarrow>
               invoke (Rimraf (dir repo)) (rimraf env (dir repo))
                 (log_if (verbose options) (''Removing existing folder: '' @ dir repo @ ''...'') rt2)))"

definition prepareWorkspaceFolders :: "Workspace \<Rightarrow> 'w collaborators \<Rightarrow> nat list \<Rightarrow> WorkspaceRepo list \<Rightarrow> WorkspaceInitOptions option \<Rightarrow> 'w runtime \<Rightarrow> (WorkspaceRepo, unit) BatchProcessResponse promise \<times> 'w runtime" where
  "prepareWorkspaceFolders this env sched repos options_arg rt =
     (let options = (case options_arg of None \<Rightarrow> \<lparr>fresh = False, verbose = False\<rparr> | Some opts \<Rightarrow> opts);
          workspaceDir = wdir this
      in await
           (\<lambda>rt. if fresh options
                  then invokeP (Rimraf workspaceDir) (rimraf env workspaceDir)
                         (log_if (verbose options) (''Removing workspace folder '' @ workspaceDir @ ''...'') rt)
                  else (Fulfilled (), rt))
           (\<lambda>u. await
              (\<lambda>rt. case invoke (ExistsSync workspaceDir) (existsSync env workspaceDir) rt of
                       (True, rt1) \<Rightarrow> (Fulfilled (), rt1)
                     | (False, rt1) \<Rightarrow>
                         invokeP (MkdirSync workspaceDir) (mkdirSync env workspaceDir)
                           (log_if (verbose options) (''Creating workspace folder '' @ workspaceDir @ ''...'') rt1))
              (\<lambda>u. batchProcess sched repos (prepareOp env options) (fsConcurrencyPreset env)))
           rt)"

definition gitI :: "'w collaborators \<Rightarrow> GitRepo \<Rightarrow> git_method \<Rightarrow> 'w runtime \<Rightarrow> (error + ExecResult) \<times> 'w runtime" where
  "gitI env g m rt = invoke (GitCall g m) (gitCall env g m) rt"

text \<open>\<open>repo.github.ref || repo.github.defaultBranch\<close>: a missing and an empty ref are falsy.\<close>

definition refOrDefaultBranch :: "GitHubRepo \<Rightarrow> string" where
  "refOrDefaultBranch r =
     (case ref r of None \<Rightarrow> defaultBranch r | Some b \<Rightarrow> if b = [] then defaultBranch r else b)"

definition cloneOrUpdateOp :: "'w collaborators \<Rightarrow> WorkspaceRepo \<Rightarrow> 'w runtime \<Rightarrow> (error + unit) \<times> 'w runtime" where
  "cloneOrUpdateOp env repo rt =
     (case invoke (IsGit (git repo)) (isGit env (git repo)) rt of
        (isg, rt1) \<Rightarrow>
          andThen
            (if isg
             then andThen (gitI env (git repo) Fetch)
                    (\<lambda>r. gitI env (git repo) DestroyAllUncommittedChangesAndFiles)
             else gitI env (git repo) (Clone (cloneUrl (github repo))))
            (\<lambda>r. andThen (gitI env (git repo) (Checkout (refOrDefaultBranch (github repo))))
                   (\<lambda>r rt'. (Inr (), rt')))
            rt1)"

definition cloneOrUpdateWorkspaceRepos :: "'w collaborators \<Rightarrow> nat list \<Rightarrow> WorkspaceRepo list \<Rightarrow> 'w runtime \<Rightarrow> (WorkspaceRepo, unit) BatchProcessResponse promise \<times> 'w runtime" where
  "cloneOrUpdateWorkspaceRepos env sched repos rt =
     batchProcess sched repos (cloneOrUpdateOp env) (fsConcurrencyPreset env) rt"

text \<open>
  The operation of the configure phase writes to \<open>bowerConfig\<close>, a local variable of
  \<open>_configureBowerWorkspace\<close> that all its operations share: the state of the batch is
  the manifest together with the runtime. The operation awaits once, the head commit;
  the assignment that follows the \<open>await\<close> runs without interruption.
\<close>

definition configureOp :: "'w collaborators \<Rightarrow> WorkspaceRepo \<Rightarrow> BowerConfig \<times> 'w runtime \<Rightarrow> (error + unit) \<times> (BowerConfig \<times> 'w runtime)" where
  "configureOp env repo s =
     (case s of
        (bowerConfig, rt) \<Rightarrow>
          (case invoke (GetHeadSha (git repo)) (getHeadSha env (git repo)) rt of
             (Inl e, rt1) \<Rightarrow> (Inl e, (bowerConfig, rt1))
           | (Inr sha, rt1) \<Rightarrow>
               (Inr (),
                (bowerConfig\<lparr>dependencies :=
                    AList.update (name (github repo)) (''./'' @ name (github repo) @ ''#'' @ sha)
                      (dependencies bowerConfig)\<rparr>,
                 rt1))))"

text \<open>The content of \<open>.bowerrc\<close>.\<close>

definition bowerrc :: string where
  \<open>bowerrc = ''{"directory": "."}''\<close>

definition configureBowerWorkspace :: "Workspace \<Rightarrow> 'w collaborators \<Rightarrow> nat list \<Rightarrow> WorkspaceRepo list \<Rightarrow> 'w runtime \<Rightarrow> (WorkspaceRepo, unit) BatchProcessResponse promise \<times> 'w runtime" where
  \<open>configureBowerWorkspace this env sched repos rt =
     await
       (invokeP (WriteFileSync (path_join env (wdir this) ''.bowerrc'') (Text bowerrc))
          (writeFileSync env (path_join env (wdir this) ''.bowerrc'') (Text bowerrc)))
       (\<lambda>u. await
          (invokeP (MergedBowerConfigsFromRepos repos) (mergedBowerConfigsFromRepos env repos))
          (\<lambda>bowerConfig rt1.
             case batchProcess sched repos (configureOp env) (fsConcurrencyPreset env) (bowerConfig, rt1) of
               (Pending, (bowerConfig', rt2)) \<Rightarrow> (Pending, rt2)
             | (Rejected e, (bowerConfig', rt2)) \<Rightarrow> (Rejected e, rt2)
             | (Fulfilled results, (bowerConfig', rt2)) \<Rightarrow>
                 await
                   (invokeP (WriteFileSync (path_join env (wdir this) ''bower.json'') (JSON_stringify bowerConfig'))
                      (writeFileSync env (path_join env (wdir this) ''bower.json'') (JSON_stringify bowerConfig')))
                   (\<lambda>u rt3. (Fulfilled results, rt3))
                   rt2))
       rt\<close>

definition installWorkspaceDependencies :: "Workspace \<Rightarrow> 'w collaborators \<Rightarrow> 'w runtime \<Rightarrow> unit promise \<times> 'w runtime" where
  "installWorkspaceDependencies this env rt =
     await
       (invokeP (Exec (wdir this) ''bower'' [''install'', ''-F''] (1000 * 1024))
          (exec env (wdir this) ''bower'' [''install'', ''-F''] (1000 * 1024)))
       (\<lambda>r rt'. (Fulfilled (), rt'))
       rt"

definition commandNotFound :: "string \<Rightarrow> error" where
  \<open>commandNotFound c =
     Error (''polymer-workspace: global "'' @ c @ ''" command not found. Install '' @ c
            @ '' on your machine and then retry.'')\<close>

definition initValidate :: "Workspace \<Rightarrow> 'w collaborators \<Rightarrow> 'w runtime \<Rightarrow> unit promise \<times> 'w runtime" where
  "initValidate this env rt =
     (if isInitialized this then (Rejected (Error ''Workspace has already been initialized.''), rt)
      else
        (case invoke (CheckCommand ''git'') (checkCommand env ''git'') rt of
           (False, rt1) \<Rightarrow> (Rejected (commandNotFound ''git''), rt1)
         | (True, rt1) \<Rightarrow>
             (case invoke (CheckCommand ''bower'') (checkCommand env ''bower'') rt1 of
                (False, rt2) \<Rightarrow> (Rejected (commandNotFound ''bower''), rt2)
              | (True, rt2) \<Rightarrow>
                  (case invoke (CheckCommand ''npm'') (checkCommand env ''npm'') rt2 of
                     (False, rt3) \<Rightarrow> (Rejected (commandNotFound ''npm''), rt3)
                   | (True, rt3) \<Rightarrow> (Fulfilled (), rt3)))))"

record InitResult =
  workspaceRepos :: "WorkspaceRepo list"
  failedWorkspaceRepos :: "(WorkspaceRepo \<times> error) list"

text \<open>
  One schedule for each of the three batches of \<open>init\<close>.
\<close>

record schedules =
  prepareSched :: "nat list"
  cloneSched :: "nat list"
  configureSched :: "nat list"

text \<open>
  The body of \<open>init\<close> in three layers. \<open>init_repo_phases\<close> is the body from the
  validation to the configuration of bower; \<open>init_phases\<close> adds the installation of the
  dependencies; \<open>init\<close> adds the assignment of \<open>_initializedRepos\<close> and returns.
  Next to the value that \<open>init\<close> returns, the first two report the local variables
  \<open>workspaceRepos\<close> and \<open>failedWorkspaceRepos\<close> as they stand after each per-repo
  phase: after the resolution, after the preparation of the folders, after the clone or
  update, after the configuration. The source does not look at the value of
  \<open>_prepareWorkspaceFolders\<close>, and \<open>collectFailures\<close>, which contains no \<open>await\<close>, has
  run to its end when its call returns.
\<close>

type_synonym snapshot = "WorkspaceRepo list \<times> (WorkspaceRepo \<times> error) list"

definition init_repo_phases :: "Workspace \<Rightarrow> 'w collaborators \<Rightarrow> schedules \<Rightarrow> Patterns \<Rightarrow> WorkspaceInitOptions option \<Rightarrow> 'w runtime \<Rightarrow> (InitResult \<times> snapshot list) promise \<times> 'w runtime" where
  "init_repo_phases this env scheds patterns options rt =
     await (initValidate this env)
       (\<lambda>u. await (determineGitHubRepos env (includePatterns patterns) (excludePatterns patterns))
          (\<lambda>githubRepos rt1.
             case openWorkspaceRepos this env githubRepos rt1 of
               (workspaceRepos0, rt2) \<Rightarrow>
                 await (prepareWorkspaceFolders this env (prepareSched scheds) workspaceRepos0 options)
                   (\<lambda>prepared. await (cloneOrUpdateWorkspaceRepos env (cloneSched scheds) workspaceRepos0)
                      (\<lambda>repoUpdateResults.
                         let failed1 = collectFailures [] (failures repoUpdateResults);
                             workspaceRepos1 = map fst (successes repoUpdateResults)
                         in await (configureBowerWorkspace this env (configureSched scheds) workspaceRepos1)
                              (\<lambda>bowerConfigureResults rt'.
                                 let failed2 = collectFailures failed1 (failures bowerConfigureResults);
                                     workspaceRepos2 = map fst (successes bowerConfigureResults)
                                 in (Fulfilled
                                       (\<lparr>workspaceRepos = workspaceRepos2, failedWorkspaceRepos = failed2\<rparr>,
                                        [(workspaceRepos0, []), (workspaceRepos0, []),
                                         (workspaceRepos1, failed1), (workspaceRepos2, failed2)]),
                                     rt'))))
                   rt2))
       rt"

definition init_phases :: "Workspace \<Rightarrow> 'w collaborators \<Rightarrow> schedules \<Rightarrow> Patterns \<Rightarrow> WorkspaceInitOptions option \<Rightarrow> 'w runtime \<Rightarrow> (InitResult \<times> snapshot list) promise \<times> 'w runtime" where
  "init_phases this env scheds patterns options rt =
     await (init_repo_phases this env scheds patterns options)
       (\<lambda>x. await (installWorkspaceDependencies this env) (\<lambda>u rt'. (Fulfilled x, rt')))
       rt"

definition init :: "Workspace \<Rightarrow> 'w collaborators \<Rightarrow> schedules \<Rightarrow> Patterns \<Rightarrow> WorkspaceInitOptions option \<Rightarrow> 'w runtime \<Rightarrow> InitResult promise \<times> Workspace \<times> 'w runtime" where
  "init this env scheds patterns options rt =
     (case init_phases this env scheds patterns options rt of
        (Fulfilled (result, history), rt') \<Rightarrow>
          (Fulfilled result, this\<lparr>initializedRepos := Some (workspaceRepos result)\<rparr>, rt')
      | (Rejected e, rt') \<Rightarrow> (Rejected e, this, rt')
      | (Pending, rt') \<Rightarrow> (Pending, this, rt'))"

section \<open>The verbs\<close>

definition run :: "Workspace \<Rightarrow> nat list \<Rightarrow> WorkspaceRepo list \<Rightarrow> (WorkspaceRepo \<Rightarrow> 'w \<Rightarrow> (error + unit) \<times> 'w) \<Rightarrow> nat option \<Rightarrow> 'w runtime \<Rightarrow> (WorkspaceRepo, unit) BatchProcessResponse promise \<times> 'w runtime" where
  "run this sched workspaceRepos_arg fn concurrency_arg rt =
     (let concurrency = (case concurrency_arg of None \<Rightarrow> 1 | Some c \<Rightarrow> c) in
      case assertInitialized this of
        Inl e \<Rightarrow> (Rejected e, rt)
      | Inr u \<Rightarrow>
          batchProcess sched workspaceRepos_arg (\<lambda>repo. invoke (CallerFn repo) (fn repo)) concurrency rt)"

definition startNewBranch :: "Workspace \<Rightarrow> 'w collaborators \<Rightarrow> nat list \<Rightarrow> WorkspaceRepo list \<Rightarrow> string \<Rightarrow> 'w runtime \<Rightarrow> (WorkspaceRepo, ExecResult) BatchProcessResponse promise \<times> 'w runtime" where
  "startNewBranch this env sched workspaceRepos_arg newBranch rt =
     (case assertInitialized this of
        Inl e \<Rightarrow> (Rejected e, rt)
      | Inr u \<Rightarrow>
          batchProcess sched workspaceRepos_arg
            (\<lambda>repo. gitI env (git repo) (CreateBranch newBranch)) (fsConcurrencyPreset env) rt)"

definition commitChanges :: "Workspace \<Rightarrow> 'w collaborators \<Rightarrow> nat list \<Rightarrow> WorkspaceRepo list \<Rightarrow> string \<Rightarrow> 'w runtime \<Rightarrow> (WorkspaceRepo, ExecResult) BatchProcessResponse promise \<times> 'w runtime" where
  "commitChanges this env sched workspaceRepos_arg msg rt =
     (case assertInitialized this of
        Inl e \<Rightarrow> (Rejected e, rt)
      | Inr u \<Rightarrow>
          batchProcess sched workspaceRepos_arg
            (\<lambda>repo. gitI env (git repo) (Commit msg)) (fsConcurrencyPreset env) rt)"

definition pushChangesToGithub :: "Workspace \<Rightarrow> 'w collaborators \<Rightarrow> nat list \<Rightarrow> WorkspaceRepo list \<Rightarrow> string option \<Rightarrow> bool option \<Rightarrow> 'w runtime \<Rightarrow> (WorkspaceRepo, ExecResult) BatchProcessResponse promise \<times> 'w runtime" where
  "pushChangesToGithub this env sched workspaceRepos_arg pushToBranch forcePush_arg rt =
     (let forcePush = (case forcePush_arg of None \<Rightarrow> False | Some b \<Rightarrow> b) in
      case assertInitialized this of
        Inl e \<Rightarrow> (Rejected e, rt)
      | Inr u \<Rightarrow>
          batchProcess sched workspaceRepos_arg
            (\<lambda>repo. gitI env (git repo) (PushCurrentBranchToOrigin pushToBranch forcePush))
            (githubConcurrencyPreset env) rt)"

definition publishPackagesToNpm :: "Workspace \<Rightarrow> 'w collaborators \<Rightarrow> nat list \<Rightarrow> WorkspaceRepo list \<Rightarrow> string option \<Rightarrow> 'w runtime \<Rightarrow> (WorkspaceRepo, ExecResult) BatchProcessResponse promise \<times> 'w runtime" where
  "publishPackagesToNpm this env sched workspaceRepos_arg distTag_arg rt =
     (let distTag = (case distTag_arg of None \<Rightarrow> ''latest'' | Some t \<Rightarrow> t) in
      case assertInitialized this of
        Inl e \<Rightarrow> (Rejected e, rt)
      | Inr u \<Rightarrow>
          batchProcess sched workspaceRepos_arg
            (\<lambda>repo. invoke (PublishToNpm (npm repo) distTag) (publishToNpm env (npm repo) distTag))
            (npmPublishConcurrencyPreset env) rt)"

section \<open>The operations of the class as one step function\<close>

text \<open>
  The public operations of a \<open>Workspace\<close> and their arguments. \<open>perform\<close> runs one of
  them and returns whether its promise was fulfilled, the object and the runtime after
  the call. Only \<open>init\<close> assigns a field of the object.
\<close>

datatype 'w operation =
    Init schedules Patterns "WorkspaceInitOptions option"
  | Run "nat list" "WorkspaceRepo list" "WorkspaceRepo \<Rightarrow> 'w \<Rightarrow> (error + unit) \<times> 'w" "nat option"
  | StartNewBranch "nat list" "WorkspaceRepo list" string
  | CommitChanges "nat list" "WorkspaceRepo list" string
  | PushChangesToGithub "nat list" "WorkspaceRepo list" "string option" "bool option"
  | PublishPackagesToNpm "nat list" "WorkspaceRepo list" "string option"

fun fulfilled :: "'a promise \<Rightarrow> bool" where
  "fulfilled (Fulfilled x) = True"
| "fulfilled (Rejected e) = False"
| "fulfilled Pending = False"

fun perform :: "'w collaborators \<Rightarrow> 'w operation \<Rightarrow> Workspace \<Rightarrow> 'w runtime \<Rightarrow> bool \<times> Workspace \<times> 'w runtime" where
  "perform env (Init scheds patterns options) this rt =
     (case init this env scheds patterns options rt of (r, this', rt') \<Rightarrow> (fulfilled r, this', rt'))"
| "perform env (Run sched repos fn concurrency) this rt =
     (case run this sched repos fn concurrency rt of (r, rt') \<Rightarrow> (fulfilled r, this, rt'))"
| "perform env (StartNewBranch sched repos newBranch) this rt =
     (case startNewBranch this env sched repos newBranch rt of (r, rt') \<Rightarrow> (fulfilled r, this, rt'))"
| "perform env (CommitChanges sched repos msg) this rt =
     (case commitChanges this env sched repos msg rt of (r, rt') \<Rightarrow> (fulfilled r, this, rt'))"
| "perform env (PushChangesToGithub sched repos pushToBranch forcePush) this rt =
     (case pushChangesToGithub this env sched repos pushToBranch forcePush rt of
        (r, rt') \<Rightarrow> (fulfilled r, this, rt'))"
| "perform env (PublishPackagesToNpm sched repos distTag) this rt =
     (case publishPackagesToNpm this env sched repos distTag rt of (r, rt') \<Rightarrow> (fulfilled r, this, rt'))"

section \<open>Properties of a run\<close>


text \<open>
  \<open>opened_by this env repo\<close>: the fields of \<open>repo\<close> are those that \<open>openWorkspaceRepo\<close>
  of the workspace \<open>this\<close> computes from \<open>repo.github\<close>.
\<close>

definition opened_by :: "Workspace \<Rightarrow> 'w collaborators \<Rightarrow> WorkspaceRepo \<Rightarrow> bool" where
  "opened_by this env repo =
     (dir repo = path_resolve env (wdir this) (name (github repo))
      \<and> git repo = GitRepo (dir repo) \<and> npm repo = NpmPackage (dir repo))"


text \<open>
  \<open>pinned repo evs manifest\<close>: the manifest maps the package name of \<open>repo\<close> to the
  folder of that name pinned to a head commit that one of the events \<open>evs\<close> read from
  the git session of \<open>repo\<close>.
\<close>

definition pinned :: "WorkspaceRepo \<Rightarrow> event list \<Rightarrow> BowerConfig \<Rightarrow> bool" where
  "pinned repo evs manifest =
     (\<exists>sha. GetHeadSha (git repo) (Inr sha) \<in> set evs
        \<and> map_of (dependencies manifest) (name (github repo))
            = Some (''./'' @ name (github repo) @ ''#'' @ sha))"

section \<open>A concrete workspace\<close>

text \<open>
  A small world on which the definitions are evaluated: the pattern \<open>Polymer/*\<close> expands
  to the repositories \<open>A\<close>, \<open>B\<close> and \<open>C\<close>, every command is installed, the workspace
  folder exists and holds no clone yet, and every collaborator succeeds. The world
  itself carries no information.
\<close>

text \<open>The names of this world are ASCII: its case conversion lowers the letters \<open>A\<close> to \<open>Z\<close>.\<close>

definition asciiLowerCase :: "string \<Rightarrow> string" where
  "asciiLowerCase s =
     map (\<lambda>c. let n = (of_char c :: nat) in if 65 \<le> n \<and> n \<le> 90 then char_of (n + 32) else c) s"

definition ref_of :: "string \<Rightarrow> GitHubRepoReference" where
  "ref_of n = \<lparr>fullName = ''Polymer/'' @ n\<rparr>"

definition info_of :: "GitHubRepoReference \<Rightarrow> GitHubRepo" where
  "info_of r = \<lparr>name = drop 8 (fullName r), cloneUrl = ''git://'' @ fullName r,
     defaultBranch = ''master'', ref = None\<rparr>"

definition demoEnv :: "unit collaborators" where
  "demoEnv = \<lparr>
     checkCommand = (\<lambda>c w. (True, w)),
     expandRepoPatterns = (\<lambda>ps w. (Inr [ref_of ''A'', ref_of ''B'', ref_of ''C''], w)),
     getRepoInfo = (\<lambda>r w. (Inr (info_of r), w)),
     existsSync = (\<lambda>p w. (p = ''ws'', w)),
     mkdirSync = (\<lambda>p w. (Inr (), w)),
     writeFileSync = (\<lambda>p c w. (Inr (), w)),
     rimraf = (\<lambda>p w. (Inr (), w)),
     isGit = (\<lambda>g w. (False, w)),
     gitCall = (\<lambda>g m w. (Inr ([], []), w)),
     getHeadSha = (\<lambda>g w. (Inr (case g of GitRepo d \<Rightarrow> ''sha-'' @ d), w)),
     publishToNpm = (\<lambda>n t w. (Inr ([], []), w)),
     mergedBowerConfigsFromRepos = (\<lambda>rs w. (Inr \<lparr>dependencies = [], devDependencies = []\<rparr>, w)),
     exec = (\<lambda>d c a m w. (Inr ([], []), w)),
     path_resolve = (\<lambda>a b. a @ ''/'' @ b),
     path_join = (\<lambda>a b. a @ ''/'' @ b),
     toLowerCase = asciiLowerCase,
     fsConcurrencyPreset = 2,
     githubConcurrencyPreset = 2,
     npmPublishConcurrencyPreset = 1\<rparr>"

definition demoRuntime :: "unit runtime" where
  "demoRuntime = \<lparr>next_oid = 0, trace = [], world = ()\<rparr>"

definition demoWorkspace :: Workspace where
  "demoWorkspace = Workspace_new \<lparr>token = ''token'', optdir = ''ws''\<rparr>"

definition demoPatterns :: Patterns where
  "demoPatterns = \<lparr>includePatterns = [''Polymer/*''], excludePatterns = None\<rparr>"

definition inOrder :: schedules where
  "inOrder = \<lparr>prepareSched = [], cloneSched = [], configureSched = []\<rparr>"

definition demoRepo :: "nat \<Rightarrow> string \<Rightarrow> WorkspaceRepo" where
  "demoRepo i n = \<lparr>oid = i, dir = ''ws/'' @ n, git = GitRepo (''ws/'' @ n),
     npm = NpmPackage (''ws/'' @ n), github = info_of (ref_of n)\<rparr>"

text \<open>The same world, except that the installation of the dependencies fails.\<close>

definition installFails :: "unit collaborators" where
  "installFails = demoEnv\<lparr>exec := (\<lambda>d c a m w. (Inl (Error ''bower: ENOENT''), w))\<rparr>"

text \<open>
  The same world, except that the folder \<open>ws/A\<close> exists without being a clone and
  cannot be removed.
\<close>

definition cleanupFails :: "unit collaborators" where
  "cleanupFails = demoEnv\<lparr>
     existsSync := (\<lambda>p w. (p = ''ws'' \<or> p = ''ws/A'', w)),
     rimraf := (\<lambda>p w. (if p = ''ws/A'' then Inl (Error ''EPERM'') else Inr (), w))\<rparr>"


definition abc :: "WorkspaceRepo list" where
  "abc = [demoRepo 0 ''A'', demoRepo 1 ''B'', demoRepo 2 ''C'']"







text \<open>
  Two operations on numbered items, for the batch executor alone; the state counts. The
  first succeeds on its first call only, whatever the item; the outcome of the second
  depends on the item only.
\<close>

definition firstOnly :: "nat \<Rightarrow> nat \<Rightarrow> (error + unit) \<times> nat" where
  "firstOnly item s = (if s = 0 then Inr () else Inl (Error ''busy''), Suc s)"

definition busyOnTwo :: "nat \<Rightarrow> nat \<Rightarrow> (error + nat) \<times> nat" where
  "busyOnTwo item s = (if item = 2 then Inl (Error ''busy'') else Inr item, s + item)"

section \<open>Resolution rejects every non-empty exclude list\<close>



text \<open>
  Claim C1. The claim: with a non-empty exclude list, the candidates whose full name
  matches an exclude pattern (case-insensitively) are removed and the others are kept,
  so that includes resolving to \<open>A\<close>, \<open>B\<close>, \<open>C\<close> with the exclude list \<open>[B]\<close> give the
  working set \<open>{A, C}\<close>. The code: \<open>excludes.map(String.prototype.toLowerCase)\<close> passes
  the method unbound, \<open>map\<close> calls it with \<open>this = undefined\<close>, and the call throws. On
  the exclude list \<open>[Polymer/B]\<close> the resolution is rejected with that \<open>TypeError\<close>
  before the patterns are expanded, whatever the collaborators do: no working set is
  produced and no collaborator is called.
\<close>

theorem determineGitHubRepos_exclude_B_throws:
  "determineGitHubRepos env [''Polymer/*''] (Some [''Polymer/B'']) rt =
     (Rejected (TypeError ''String.prototype.toLowerCase called on null or undefined''), rt)"
  by (simp add: determineGitHubRepos_def Array_map_def String_prototype_toLowerCase_def)

section \<open>The batch executor partitions its items\<close>


lemma pick_less: "0 < n \<Longrightarrow> pick sched n < n"
  by (simp add: pick_def split: list.split)

lemma set_without_nth:
  assumes "i < length xs"
  shows "insert (xs ! i) (set (take i xs @ drop (Suc i) xs)) = set xs"
proof -
  have "xs = take i xs @ xs ! i # drop (Suc i) xs"
    using assms by (rule id_take_nth_drop)
  then have "set xs = set (take i xs @ xs ! i # drop (Suc i) xs)"
    by simp
  then show ?thesis by auto
qed

lemma set_take_drop: "set (take n xs) \<union> set (drop n xs) = set xs"
proof -
  have "set (take n xs @ drop n xs) = set xs" by simp
  then show ?thesis by (simp only: set_append)
qed


lemma keys_record_outcome: "keys (record_outcome x out acc) = insert x (keys acc)"
  by (cases out) (auto simp: keys_def record_outcome_def AList.dom_update)


lemma remove_nth_append:
  "i < length xs \<Longrightarrow> take i (xs @ ys) @ drop (Suc i) (xs @ ys) = (take i xs @ drop (Suc i) xs) @ ys"
  by simp

lemma batch_loop_invariant:
  assumes "batch_loop c op sched window waiting acc s = (Fulfilled res, s')"
    and "P (window @ waiting) acc s"
    and "\<And>xs i acc s out s1. P xs acc s \<Longrightarrow> i < length xs \<Longrightarrow> op (xs ! i) s = (out, s1) \<Longrightarrow>
           P (take i xs @ drop (Suc i) xs) (record_outcome (xs ! i) out acc) s1"
  shows "P [] res s'"
  using assms
proof (induction c op sched window waiting acc s rule: batch_loop.induct)
  case (1 c op sched waiting acc s)
  then show ?case by (simp split: if_splits)
next
  case (2 c op sched w ws waiting acc s)
  define i where "i = pick sched (Suc (length ws))"
  define item where "item = (w # ws) ! i"
  define inflight where "inflight = take i (w # ws) @ drop (Suc i) (w # ws)"
  obtain out s1 where op: "op item s = (out, s1)" by (cases "op item s")
  have i: "i < length (w # ws)" by (simp add: i_def pick_less)
  have run: "batch_loop c op (tl sched) (inflight @ take (c - length inflight) waiting)
               (drop (c - length inflight) waiting) (record_outcome item out acc) s1 = (Fulfilled res, s')"
    using "2.prems"(1) op by (simp add: Let_def i_def item_def inflight_def)
  have nth: "((w # ws) @ waiting) ! i = item"
    using i by (simp only: item_def nth_append if_True)
  have rest: "take i ((w # ws) @ waiting) @ drop (Suc i) ((w # ws) @ waiting) = inflight @ waiting"
    unfolding inflight_def using i by (rule remove_nth_append)
  have "P (take i ((w # ws) @ waiting) @ drop (Suc i) ((w # ws) @ waiting))
          (record_outcome (((w # ws) @ waiting) ! i) out acc) s1"
  proof (rule "2.prems"(3))
    show "P ((w # ws) @ waiting) acc s" by (rule "2.prems"(2))
    show "i < length ((w # ws) @ waiting)" using i by simp
    show "op (((w # ws) @ waiting) ! i) s = (out, s1)" by (simp only: nth op)
  qed
  then have "P (inflight @ waiting) (record_outcome item out acc) s1"
    by (simp only: nth rest)
  then have "P ((inflight @ take (c - length inflight) waiting) @ drop (c - length inflight) waiting)
               (record_outcome item out acc) s1"
    by simp
  with "2.IH" [OF i_def item_def inflight_def op [symmetric] run] "2.prems"(3) show ?case
    by blast
qed

lemma batch_loop_keys:
  assumes "batch_loop c op sched window waiting acc s = (Fulfilled res, s')"
  shows "keys res = keys acc \<union> set window \<union> set waiting"
proof -
  have "keys res \<union> set [] = keys acc \<union> set (window @ waiting)"
  proof (rule batch_loop_invariant [OF assms, where P = "\<lambda>xs a s. keys a \<union> set xs = keys acc \<union> set (window @ waiting)"])
    show "keys acc \<union> set (window @ waiting) = keys acc \<union> set (window @ waiting)" ..
  next
    fix xs :: "'a list" and i and a :: "('a, 'b) BatchProcessResponse" and s :: 'c
      and out :: "error + 'b" and s1 :: 'c
    assume inv: "keys a \<union> set xs = keys acc \<union> set (window @ waiting)" and i: "i < length xs"
    have "keys (record_outcome (xs ! i) out a) \<union> set (take i xs @ drop (Suc i) xs)
            = keys a \<union> insert (xs ! i) (set (take i xs @ drop (Suc i) xs))"
      by (simp add: keys_record_outcome)
    also have "\<dots> = keys a \<union> set xs"
      by (simp only: set_without_nth [OF i])
    finally show "keys (record_outcome (xs ! i) out a) \<union> set (take i xs @ drop (Suc i) xs)
            = keys acc \<union> set (window @ waiting)"
      using inv by simp
  qed
  then show ?thesis by auto
qed

lemma batch_loop_fulfils:
  "0 < c \<Longrightarrow> (window = [] \<longrightarrow> waiting = []) \<Longrightarrow>
     \<exists>res s'. batch_loop c op sched window waiting acc s = (Fulfilled res, s')"
proof (induction c op sched window waiting acc s rule: batch_loop.induct)
  case (1 c op sched waiting acc s)
  then show ?case by simp
next
  case (2 c op sched w ws waiting acc s)
  define i where "i = pick sched (Suc (length ws))"
  define item where "item = (w # ws) ! i"
  define inflight where "inflight = take i (w # ws) @ drop (Suc i) (w # ws)"
  obtain out s1 where op: "op item s = (out, s1)" by (cases "op item s")
  have refill: "inflight @ take (c - length inflight) waiting = [] \<longrightarrow> drop (c - length inflight) waiting = []"
    using "2.prems"(1) by (cases waiting) auto
  have "\<exists>res s'. batch_loop c op (tl sched) (inflight @ take (c - length inflight) waiting)
               (drop (c - length inflight) waiting) (record_outcome item out acc) s1 = (Fulfilled res, s')"
    using "2.IH" [OF i_def item_def inflight_def op [symmetric] "2.prems"(1) refill] .
  then show ?case
    using op by (simp add: Let_def i_def item_def inflight_def)
qed


lemma batch_loop_distinct_keys:
  assumes "batch_loop c op sched window waiting acc s = (Fulfilled res, s')"
    and "distinct (map fst (successes acc)) \<and> distinct (map fst (failures acc))"
  shows "distinct (map fst (successes res)) \<and> distinct (map fst (failures res))"
proof (rule batch_loop_invariant [OF assms(1),
      where P = "\<lambda>xs a s. distinct (map fst (successes a)) \<and> distinct (map fst (failures a))"])
  show "distinct (map fst (successes acc)) \<and> distinct (map fst (failures acc))"
    by (rule assms(2))
next
  fix xs :: "'a list" and i and a :: "('a, 'b) BatchProcessResponse" and s :: 'c
    and out :: "error + 'b" and s1 :: 'c
  assume "distinct (map fst (successes a)) \<and> distinct (map fst (failures a))"
  then show "distinct (map fst (successes (record_outcome (xs ! i) out a)))
               \<and> distinct (map fst (failures (record_outcome (xs ! i) out a)))"
    by (cases out) (simp_all add: record_outcome_def AList.distinct_update)
qed

lemma batch_loop_disjoint:
  assumes "batch_loop c op sched window waiting acc s = (Fulfilled res, s')"
    and "distinct (window @ waiting)"
    and "fst ` set (successes acc) \<inter> fst ` set (failures acc) = {}"
    and "keys acc \<inter> set (window @ waiting) = {}"
  shows "fst ` set (successes res) \<inter> fst ` set (failures res) = {}"
proof -
  have "distinct ([] :: 'a list) \<and> fst ` set (successes res) \<inter> fst ` set (failures res) = {}
          \<and> keys res \<inter> set [] = {}"
  proof (rule batch_loop_invariant [OF assms(1),
        where P = "\<lambda>xs a s. distinct xs \<and> fst ` set (successes a) \<inter> fst ` set (failures a) = {}
                      \<and> keys a \<inter> set xs = {}"])
    show "distinct (window @ waiting) \<and> fst ` set (successes acc) \<inter> fst ` set (failures acc) = {}
            \<and> keys acc \<inter> set (window @ waiting) = {}"
      using assms(2-4) by simp
  next
    fix xs :: "'a list" and i and a :: "('a, 'b) BatchProcessResponse" and s :: 'c
      and out :: "error + 'b" and s1 :: 'c
    assume inv: "distinct xs \<and> fst ` set (successes a) \<inter> fst ` set (failures a) = {} \<and> keys a \<inter> set xs = {}"
      and i: "i < length xs"
    define ys where "ys = take i xs @ drop (Suc i) xs"
    have xs: "xs = take i xs @ xs ! i # drop (Suc i) xs"
      using i by (rule id_take_nth_drop)
    have "distinct (take i xs @ xs ! i # drop (Suc i) xs)"
      using inv xs by simp
    then have d: "distinct ys" and notin: "xs ! i \<notin> set ys"
      by (auto simp: ys_def)
    have sub: "set ys \<subseteq> set xs"
      using set_without_nth [OF i] by (auto simp: ys_def)
    have new: "xs ! i \<notin> keys a"
      using inv i by (auto simp: disjoint_iff)
    have "fst ` set (successes (record_outcome (xs ! i) out a)) \<inter> fst ` set (failures (record_outcome (xs ! i) out a)) = {}"
      using inv new by (cases out) (auto simp: record_outcome_def AList.dom_update keys_def)
    moreover have "keys (record_outcome (xs ! i) out a) \<inter> set ys = {}"
      using inv notin sub by (auto simp: keys_record_outcome)
    ultimately show "distinct (take i xs @ drop (Suc i) xs)
        \<and> fst ` set (successes (record_outcome (xs ! i) out a)) \<inter> fst ` set (failures (record_outcome (xs ! i) out a)) = {}
        \<and> keys (record_outcome (xs ! i) out a) \<inter> set (take i xs @ drop (Suc i) xs) = {}"
      using d by (simp add: ys_def)
  qed
  then show ?thesis by simp
qed

lemma batch_loop_outcomes:
  assumes "batch_loop c (\<lambda>item s. (out item, eff item s)) sched window waiting acc s = (Fulfilled res, s')"
    and "(\<forall>(k, v) \<in> set (successes acc). out k = Inr v) \<and> (\<forall>(k, e) \<in> set (failures acc). out k = Inl e)"
  shows "(\<forall>(k, v) \<in> set (successes res). out k = Inr v) \<and> (\<forall>(k, e) \<in> set (failures res). out k = Inl e)"
proof (rule batch_loop_invariant [OF assms(1),
      where P = "\<lambda>xs a s. (\<forall>(k, v) \<in> set (successes a). out k = Inr v) \<and> (\<forall>(k, e) \<in> set (failures a). out k = Inl e)"])
  show "(\<forall>(k, v) \<in> set (successes acc). out k = Inr v) \<and> (\<forall>(k, e) \<in> set (failures acc). out k = Inl e)"
    by (rule assms(2))
next
  fix xs :: "'a list" and i and a :: "('a, 'b) BatchProcessResponse" and s :: 'c
    and out' :: "error + 'b" and s1 :: 'c
  assume inv: "(\<forall>(k, v) \<in> set (successes a). out k = Inr v) \<and> (\<forall>(k, e) \<in> set (failures a). out k = Inl e)"
    and op: "(out (xs ! i), eff (xs ! i) s) = (out', s1)"
  have sub: "set (AList.update k v al) \<subseteq> insert (k, v) (set al)" for k :: 'a and v :: 'v and al
    by (induction al) auto
  show "(\<forall>(k, v) \<in> set (successes (record_outcome (xs ! i) out' a)). out k = Inr v)
          \<and> (\<forall>(k, e) \<in> set (failures (record_outcome (xs ! i) out' a)). out k = Inl e)"
  proof (cases out')
    case (Inl e)
    then have "set (failures (record_outcome (xs ! i) out' a)) \<subseteq> insert (xs ! i, e) (set (failures a))"
      and "successes (record_outcome (xs ! i) out' a) = successes a"
      by (simp_all add: record_outcome_def sub)
    then show ?thesis using inv op Inl by auto
  next
    case (Inr v)
    then have "set (successes (record_outcome (xs ! i) out' a)) \<subseteq> insert (xs ! i, v) (set (successes a))"
      and "failures (record_outcome (xs ! i) out' a) = failures a"
      by (simp_all add: record_outcome_def sub)
    then show ?thesis using inv op Inr by auto
  qed
qed

lemma batch_loop_state:
  assumes "batch_loop c op sched window waiting acc s = (Fulfilled res, s')"
    and "R s"
    and "\<And>item s out s1. R s \<Longrightarrow> op item s = (out, s1) \<Longrightarrow> R s1"
  shows "R s'"
  by (rule batch_loop_invariant [OF assms(1), where P = "\<lambda>xs a s. R s"]) (use assms(2,3) in blast)+

lemma batch_loop_not_Rejected: "fst (batch_loop c op sched window waiting acc s) \<noteq> Rejected e"
proof (induction c op sched window waiting acc s rule: batch_loop.induct)
  case (1 c op sched waiting acc s)
  then show ?case by simp
next
  case (2 c op sched w ws waiting acc s)
  then show ?case
    by (simp add: Let_def split: prod.split)
qed


lemma keys_empty: "keys \<lparr>successes = [], failures = []\<rparr> = {}"
  by (simp add: keys_def)

lemma batchProcess_keys:
  assumes "batchProcess sched items op c s = (Fulfilled res, s')"
  shows "fst ` set (successes res) \<union> fst ` set (failures res) = set items"
proof -
  have "keys res = {} \<union> set (take c items) \<union> set (drop c items)"
    using batch_loop_keys [OF assms [unfolded batchProcess_def]] by (simp only: keys_empty)
  then have "keys res = set items"
    by (simp add: set_take_drop)
  then show ?thesis
    by (simp add: keys_def)
qed

lemma batchProcess_fulfils:
  assumes "0 < c"
  shows "\<exists>res s'. batchProcess sched items op c s = (Fulfilled res, s')"
proof -
  have "take c items = [] \<longrightarrow> drop c items = []"
    using assms by (cases items) auto
  with assms show ?thesis
    unfolding batchProcess_def by (rule batch_loop_fulfils)
qed

lemma batchProcess_empty:
  "batchProcess sched [] op c s = (Fulfilled \<lparr>successes = [], failures = []\<rparr>, s)"
  by (simp add: batchProcess_def)

lemma batchProcess_distinct_keys:
  assumes "batchProcess sched items op c s = (Fulfilled res, s')"
  shows "distinct (map fst (successes res)) \<and> distinct (map fst (failures res))"
  using assms unfolding batchProcess_def by (rule batch_loop_distinct_keys) simp

lemma batchProcess_disjoint:
  assumes "batchProcess sched items op c s = (Fulfilled res, s')" and "distinct items"
  shows "fst ` set (successes res) \<inter> fst ` set (failures res) = {}"
  using assms(1) unfolding batchProcess_def
proof (rule batch_loop_disjoint)
  show "distinct (take c items @ drop c items)" using assms(2) by simp
qed (simp_all add: keys_empty)

lemma batchProcess_outcomes:
  assumes "batchProcess sched items (\<lambda>item s. (out item, eff item s)) c s = (Fulfilled res, s')"
  shows "(\<forall>(k, v) \<in> set (successes res). out k = Inr v) \<and> (\<forall>(k, e) \<in> set (failures res). out k = Inl e)"
  using assms unfolding batchProcess_def by (rule batch_loop_outcomes) simp

lemma batchProcess_state:
  assumes "batchProcess sched items op c s = (Fulfilled res, s')"
    and "R s"
    and "\<And>item s out s1. R s \<Longrightarrow> op item s = (out, s1) \<Longrightarrow> R s1"
  shows "R s'"
  using assms unfolding batchProcess_def by (rule batch_loop_state)

lemma batchProcess_not_Rejected: "fst (batchProcess sched items op c s) \<noteq> Rejected e"
  unfolding batchProcess_def by (rule batch_loop_not_Rejected)




text \<open>
  Claim C4, as amended. For every sequence of items, every operation (whatever it does
  to the state and however its outcome depends on the state), every schedule and every
  concurrency of at least 1, \<open>batchProcess\<close> resolves, the union of the key sets of
  the success mapping and of the failure mapping is the set of the input items, and
  every key occurs once in its mapping. The two key sets are disjoint when the items
  are pairwise distinct, and also when the outcome of the operation on an item does
  not depend on the state; in the latter case each mapping holds for each item the
  outcome of the operation on it. On the empty sequence \<open>batchProcess\<close> returns two
  empty mappings and leaves the state as it was, whatever the operation would have done
  to it: the operation is not invoked.
\<close>

theorem batchProcess_partitions_items:
  assumes "1 \<le> concurrency"
  shows "(\<exists>res s'.
            batchProcess sched items op concurrency s = (Fulfilled res, s')
            \<and> fst ` set (successes res) \<union> fst ` set (failures res) = set items
            \<and> distinct (map fst (successes res)) \<and> distinct (map fst (failures res))
            \<and> (distinct items \<or> (\<forall>item s1 s2. fst (op item s1) = fst (op item s2))
                 \<longrightarrow> fst ` set (successes res) \<inter> fst ` set (failures res) = {})
            \<and> ((\<forall>item s1 s2. fst (op item s1) = fst (op item s2))
                 \<longrightarrow> (\<forall>item \<in> set items.
                        case fst (op item s) of
                          Inr v \<Rightarrow> map_of (successes res) item = Some v
                        | Inl e \<Rightarrow> map_of (failures res) item = Some e)))
         \<and> batchProcess sched [] op concurrency s0 = (Fulfilled \<lparr>successes = [], failures = []\<rparr>, s0)"
proof -
  obtain res s' where run: "batchProcess sched items op concurrency s = (Fulfilled res, s')"
    using batchProcess_fulfils [of concurrency] assms by (metis less_eq_Suc_le One_nat_def)
  have un: "fst ` set (successes res) \<union> fst ` set (failures res) = set items"
    using run by (rule batchProcess_keys)
  have dist: "distinct (map fst (successes res)) \<and> distinct (map fst (failures res))"
    using run by (rule batchProcess_distinct_keys)
  have pure: "fst ` set (successes res) \<inter> fst ` set (failures res) = {}
              \<and> (\<forall>item \<in> set items.
                        case fst (op item s) of
                          Inr v \<Rightarrow> map_of (successes res) item = Some v
                        | Inl e \<Rightarrow> map_of (failures res) item = Some e)"
    if indep: "\<forall>item s1 s2. fst (op item s1) = fst (op item s2)"
  proof -
    define outcome where "outcome item = fst (op item s)" for item
    define effect where "effect item t = snd (op item t)" for item t
    have "op item t = (outcome item, effect item t)" for item t
      using indep by (simp add: outcome_def effect_def prod_eq_iff)
    then have op: "op = (\<lambda>item t. (outcome item, effect item t))"
      by (intro ext)
    have run': "batchProcess sched items (\<lambda>item t. (outcome item, effect item t)) concurrency s = (Fulfilled res, s')"
      using run by (simp only: op [symmetric])
    have out: "(\<forall>(k, v) \<in> set (successes res). outcome k = Inr v) \<and> (\<forall>(k, e) \<in> set (failures res). outcome k = Inl e)"
      using run' by (rule batchProcess_outcomes)
    have disj: "fst ` set (successes res) \<inter> fst ` set (failures res) = {}"
    proof (rule ccontr)
      assume "fst ` set (successes res) \<inter> fst ` set (failures res) \<noteq> {}"
      then obtain k v e where "(k, v) \<in> set (successes res)" and "(k, e) \<in> set (failures res)"
        by auto
      with out have "outcome k = Inr v" and "outcome k = Inl e" by auto
      then show False by simp
    qed
    have each: "case outcome item of
                  Inr v \<Rightarrow> map_of (successes res) item = Some v
                | Inl e \<Rightarrow> map_of (failures res) item = Some e" if "item \<in> set items" for item
    proof (cases "outcome item")
      case (Inl e)
      have "item \<notin> fst ` set (successes res)"
        using out Inl by auto
      with un that have "item \<in> fst ` set (failures res)" by blast
      then obtain e' where "(item, e') \<in> set (failures res)" by force
      moreover from this out Inl have "e' = e" by auto
      ultimately show ?thesis using dist Inl by simp
    next
      case (Inr v)
      have "item \<notin> fst ` set (failures res)"
        using out Inr by auto
      with un that have "item \<in> fst ` set (successes res)" by blast
      then obtain v' where "(item, v') \<in> set (successes res)" by force
      moreover from this out Inr have "v' = v" by auto
      ultimately show ?thesis using dist Inr by simp
    qed
    show ?thesis
      using disj each by (simp add: outcome_def)
  qed
  have disj: "fst ` set (successes res) \<inter> fst ` set (failures res) = {}"
    if "distinct items \<or> (\<forall>item s1 s2. fst (op item s1) = fst (op item s2))"
    using that
  proof
    assume "distinct items"
    with run show ?thesis by (rule batchProcess_disjoint)
  next
    assume "\<forall>item s1 s2. fst (op item s1) = fst (op item s2)"
    then show ?thesis using pure by blast
  qed
  have "batchProcess sched items op concurrency s = (Fulfilled res, s')
            \<and> fst ` set (successes res) \<union> fst ` set (failures res) = set items
            \<and> distinct (map fst (successes res)) \<and> distinct (map fst (failures res))
            \<and> (distinct items \<or> (\<forall>item s1 s2. fst (op item s1) = fst (op item s2))
                 \<longrightarrow> fst ` set (successes res) \<inter> fst ` set (failures res) = {})
            \<and> ((\<forall>item s1 s2. fst (op item s1) = fst (op item s2))
                 \<longrightarrow> (\<forall>item \<in> set items.
                        case fst (op item s) of
                          Inr v \<Rightarrow> map_of (successes res) item = Some v
                        | Inl e \<Rightarrow> map_of (failures res) item = Some e))"
    using run un dist disj pure by blast
  then show ?thesis
    by (auto simp: batchProcess_empty)
qed

text \<open>
  The claim as stated has the two key sets disjoint for every sequence of items. The
  mappings are keyed by the item. When an item occurs twice in the sequence and the
  outcome of the operation depends on the state, the two runs on that item can end
  differently, and the item is a key of both mappings: with a concurrency of 1, the
  sequence \<open>[0, 0]\<close> and an operation that succeeds only on its first call, \<open>0\<close> is
  recorded as a success and as a failure.
\<close>

theorem batchProcess_repeated_item_in_both:
  "batchProcess [] [0, 0] firstOnly 1 0
     = (Fulfilled \<lparr>successes = [(0, ())], failures = [(0, Error ''busy'')]\<rparr>, 2)
   \<and> fst ` set [(0 :: nat, ())] \<inter> fst ` set [(0 :: nat, Error ''busy'')] \<noteq> {}"
  by (simp add: batchProcess_def firstOnly_def pick_def record_outcome_def Let_def)

theorem batchProcess_partitions_items_witness:
  "(1::nat) \<le> 2 \<and> distinct [1, 2, 3 :: nat] \<and>
   (\<exists>res s'.
      batchProcess [1] [1, 2, 3] firstOnly 2 0 = (Fulfilled res, s')
      \<and> fst ` set (successes res) \<union> fst ` set (failures res) = set [1, 2, 3]
      \<and> distinct (map fst (successes res)) \<and> distinct (map fst (failures res))
      \<and> fst ` set (successes res) \<inter> fst ` set (failures res) = {})
   \<and> batchProcess [1] [] firstOnly 2 0 = (Fulfilled \<lparr>successes = [], failures = []\<rparr>, 0)
   \<and> (\<exists>res s'.
      batchProcess [1] [1, 2, 1] busyOnTwo 2 0 = (Fulfilled res, s')
      \<and> fst ` set (successes res) \<union> fst ` set (failures res) = set [1, 2, 1]
      \<and> fst ` set (successes res) \<inter> fst ` set (failures res) = {}
      \<and> map_of (successes res) 1 = Some 1 \<and> map_of (failures res) 2 = Some (Error ''busy''))"
proof -
  have "\<exists>res s'.
      batchProcess [1] [1, 2, 3] firstOnly 2 0 = (Fulfilled res, s')
      \<and> fst ` set (successes res) \<union> fst ` set (failures res) = set [1, 2, 3]
      \<and> distinct (map fst (successes res)) \<and> distinct (map fst (failures res))
      \<and> fst ` set (successes res) \<inter> fst ` set (failures res) = {}"
    using batchProcess_partitions_items [where concurrency = 2 and sched = "[1]" and items = "[1, 2, 3 :: nat]"
      and op = firstOnly and s = "0::nat" and ?s0.0 = "0::nat"]
    by auto
  moreover have "batchProcess [1] [] firstOnly 2 0 = (Fulfilled \<lparr>successes = [], failures = []\<rparr>, 0)"
    using batchProcess_partitions_items [where concurrency = 2 and sched = "[1]" and items = "[1, 2, 3 :: nat]"
      and op = firstOnly and s = "0::nat" and ?s0.0 = "0::nat"]
    by simp
  moreover have "\<exists>res s'.
      batchProcess [1] [1, 2, 1] busyOnTwo 2 0 = (Fulfilled res, s')
      \<and> fst ` set (successes res) \<union> fst ` set (failures res) = set [1, 2, 1]
      \<and> fst ` set (successes res) \<inter> fst ` set (failures res) = {}
      \<and> map_of (successes res) 1 = Some 1 \<and> map_of (failures res) 2 = Some (Error ''busy'')"
    using batchProcess_partitions_items [where concurrency = 2 and sched = "[1]" and items = "[1, 2, 1 :: nat]"
      and op = busyOnTwo and s = "0::nat" and ?s0.0 = "0::nat"]
    by (auto simp: busyOnTwo_def)
  ultimately show ?thesis by simp
qed

section \<open>The initialized flag and the guards on it\<close>


lemma await_Fulfilled:
  "await m k s = (Fulfilled y, s') \<Longrightarrow> \<exists>x s1. m s = (Fulfilled x, s1) \<and> k x s1 = (Fulfilled y, s')"
  by (auto simp: await_def split: prod.splits promise.splits)

lemma initValidate_initialized:
  "isInitialized this \<Longrightarrow>
     initValidate this env rt = (Rejected (Error ''Workspace has already been initialized.''), rt)"
  by (simp add: initValidate_def)

lemma initValidate_Fulfilled:
  "initValidate this env rt = (Fulfilled u, rt') \<Longrightarrow> \<not> isInitialized this"
  by (auto simp: initValidate_def split: if_splits)

lemma init_initialized:
  "isInitialized this \<Longrightarrow>
     init this env scheds patterns options rt =
       (Rejected (Error ''Workspace has already been initialized.''), this, rt)"
  by (simp add: init_def init_phases_def init_repo_phases_def await_def initValidate_initialized)

lemma init_Fulfilled_initialized:
  "init this env scheds patterns options rt = (Fulfilled result, this', rt') \<Longrightarrow>
     this' = this\<lparr>initializedRepos := Some (workspaceRepos result)\<rparr> \<and> isInitialized this'"
  by (auto simp: init_def isInitialized_def split: prod.splits promise.splits)

lemma init_not_Fulfilled:
  "init this env scheds patterns options rt = (r, this', rt') \<Longrightarrow> \<not> fulfilled r \<Longrightarrow> this' = this"
  by (auto simp: init_def split: prod.splits promise.splits)

lemmas demo_defs = init_def init_phases_def init_repo_phases_def initValidate_def determineGitHubRepos_def
  await_def invoke_def invokeP_def console_log_def log_if_def isInitialized_def Workspace_new_def
  demoEnv_def demoRuntime_def demoWorkspace_def demoPatterns_def inOrder_def demoRepo_def
  Array_map_def Array_includes_def asciiLowerCase_def ref_of_def info_of_def
  openWorkspaceRepo_def prepareWorkspaceFolders_def prepareOp_def batchProcess_def pick_def record_outcome_def
  cloneOrUpdateWorkspaceRepos_def cloneOrUpdateOp_def gitI_def andThen_def refOrDefaultBranch_def
  configureBowerWorkspace_def configureOp_def installWorkspaceDependencies_def collectFailures_def Let_def

lemma demo_init:
  "fst (init demoWorkspace demoEnv inOrder demoPatterns None demoRuntime) =
     Fulfilled \<lparr>workspaceRepos = [demoRepo 0 ''A'', demoRepo 1 ''B'', demoRepo 2 ''C''],
                failedWorkspaceRepos = []\<rparr>"
  by (simp add: demo_defs)

text \<open>
  Claim C8. When a call of \<open>init\<close> has been fulfilled, every later call of \<open>init\<close> on
  the resulting Workspace, with any arguments, any collaborators and in any state of
  the runtime, is rejected with the error \<open>Workspace has already been initialized.\<close>
  and returns the Workspace and the runtime as they were: the trace has no new event
  (no command check, no pattern expansion, no call of the file system), the world is
  the same, and the initialized working set is unchanged.
\<close>

theorem second_init_rejected:
  assumes "init this env scheds patterns options rt = (Fulfilled result, this', rt')"
  shows "init this' env2 scheds2 patterns2 options2 rt2 =
           (Rejected (Error ''Workspace has already been initialized.''), this', rt2)"
proof -
  have "isInitialized this'"
    using init_Fulfilled_initialized [OF assms] by (rule conjunct2)
  then show ?thesis
    by (rule init_initialized)
qed

theorem second_init_rejected_witness:
  "init demoWorkspace demoEnv inOrder demoPatterns None demoRuntime =
     (Fulfilled \<lparr>workspaceRepos = [demoRepo 0 ''A'', demoRepo 1 ''B'', demoRepo 2 ''C''],
                 failedWorkspaceRepos = []\<rparr>,
      fst (snd (init demoWorkspace demoEnv inOrder demoPatterns None demoRuntime)),
      snd (snd (init demoWorkspace demoEnv inOrder demoPatterns None demoRuntime)))
   \<and> init (fst (snd (init demoWorkspace demoEnv inOrder demoPatterns None demoRuntime))) demoEnv inOrder
        demoPatterns None (snd (snd (init demoWorkspace demoEnv inOrder demoPatterns None demoRuntime))) =
       (Rejected (Error ''Workspace has already been initialized.''),
        fst (snd (init demoWorkspace demoEnv inOrder demoPatterns None demoRuntime)),
        snd (snd (init demoWorkspace demoEnv inOrder demoPatterns None demoRuntime)))"
proof -
  have run: "init demoWorkspace demoEnv inOrder demoPatterns None demoRuntime =
     (Fulfilled \<lparr>workspaceRepos = [demoRepo 0 ''A'', demoRepo 1 ''B'', demoRepo 2 ''C''],
                 failedWorkspaceRepos = []\<rparr>,
      fst (snd (init demoWorkspace demoEnv inOrder demoPatterns None demoRuntime)),
      snd (snd (init demoWorkspace demoEnv inOrder demoPatterns None demoRuntime)))"
    using demo_init by (simp add: prod_eq_iff)
  from second_init_rejected [OF run] run show ?thesis
    by blast
qed

text \<open>
  Claim C9. On a Workspace that is not initialized, each of the five verbs \<open>run\<close>,
  \<open>startNewBranch\<close>, \<open>commitChanges\<close>, \<open>pushChangesToGithub\<close> and \<open>publishPackagesToNpm\<close>
  is rejected with the error \<open>Workspace has not been initialized, run init() first.\<close>
  and returns the runtime as it was, whatever the collaborators and the caller's
  function are: no collaborator is called and no batch is started.
\<close>

theorem verbs_need_init:
  assumes "\<not> isInitialized this"
  shows "run this sched repos fn concurrency rt =
           (Rejected (Error ''Workspace has not been initialized, run init() first.''), rt)
       \<and> startNewBranch this env sched repos newBranch rt =
           (Rejected (Error ''Workspace has not been initialized, run init() first.''), rt)
       \<and> commitChanges this env sched repos msg rt =
           (Rejected (Error ''Workspace has not been initialized, run init() first.''), rt)
       \<and> pushChangesToGithub this env sched repos pushToBranch forcePush rt =
           (Rejected (Error ''Workspace has not been initialized, run init() first.''), rt)
       \<and> publishPackagesToNpm this env sched repos distTag rt =
           (Rejected (Error ''Workspace has not been initialized, run init() first.''), rt)"
  using assms
  by (simp add: run_def startNewBranch_def commitChanges_def pushChangesToGithub_def
      publishPackagesToNpm_def assertInitialized_def)

theorem verbs_need_init_witness:
  "\<not> isInitialized demoWorkspace
   \<and> run demoWorkspace [] [demoRepo 0 ''A''] (\<lambda>repo w. (Inr (), w)) None demoRuntime =
       (Rejected (Error ''Workspace has not been initialized, run init() first.''), demoRuntime)
   \<and> startNewBranch demoWorkspace demoEnv [] [demoRepo 0 ''A''] ''release'' demoRuntime =
       (Rejected (Error ''Workspace has not been initialized, run init() first.''), demoRuntime)
   \<and> commitChanges demoWorkspace demoEnv [] [demoRepo 0 ''A''] ''bump'' demoRuntime =
       (Rejected (Error ''Workspace has not been initialized, run init() first.''), demoRuntime)
   \<and> pushChangesToGithub demoWorkspace demoEnv [] [demoRepo 0 ''A''] None None demoRuntime =
       (Rejected (Error ''Workspace has not been initialized, run init() first.''), demoRuntime)
   \<and> publishPackagesToNpm demoWorkspace demoEnv [] [demoRepo 0 ''A''] None demoRuntime =
       (Rejected (Error ''Workspace has not been initialized, run init() first.''), demoRuntime)"
proof -
  have h: "\<not> isInitialized demoWorkspace"
    by (simp add: demoWorkspace_def Workspace_new_def isInitialized_def)
  from verbs_need_init [OF h] h show ?thesis
    by simp
qed


lemma init_repo_phases_uninitialized:
  assumes "init_repo_phases this env scheds patterns options rt = (Fulfilled x, rt1)"
  shows "\<not> isInitialized this"
proof -
  obtain u rt0 where "initValidate this env rt = (Fulfilled u, rt0)"
    using assms unfolding init_repo_phases_def by (blast dest: await_Fulfilled)
  then show ?thesis by (rule initValidate_Fulfilled)
qed

lemma init_phases_after_repo_phases:
  assumes "init_repo_phases this env scheds patterns options rt = (Fulfilled x, rt1)"
  shows "init_phases this env scheds patterns options rt =
           (case invoke (Exec (wdir this) ''bower'' [''install'', ''-F''] (1000 * 1024))
                   (exec env (wdir this) ''bower'' [''install'', ''-F''] (1000 * 1024)) rt1 of
              (Inl e, rt2) \<Rightarrow> (Rejected e, rt2)
            | (Inr r, rt2) \<Rightarrow> (Fulfilled x, rt2))"
  using assms
  by (simp add: init_phases_def installWorkspaceDependencies_def await_def invokeP_def
      split: prod.splits sum.splits)

text \<open>
  Claim C6. When the phases of \<open>init\<close> up to the configuration of bower have completed
  and the installation command \<open>bower install -F\<close> then fails with an error \<open>e\<close>, \<open>init\<close>
  is rejected with \<open>e\<close>: no value, and so no ledger, is returned. The Workspace is
  returned without any assignment and is not initialized, and afterwards, in whatever
  state the runtime is, each of the five verbs on it is rejected with the
  initialization error and calls no collaborator.
\<close>

theorem install_failure_is_thrown:
  assumes "init_repo_phases this env scheds patterns options rt = (Fulfilled x, rt1)"
    and "exec env (wdir this) ''bower'' [''install'', ''-F''] (1000 * 1024) (world rt1) = (Inl e, w2)"
  shows "init this env scheds patterns options rt =
           (Rejected e, this,
            rt1\<lparr>trace := trace rt1 @ [Exec (wdir this) ''bower'' [''install'', ''-F''] (1000 * 1024) (Inl e)],
                world := w2\<rparr>)
       \<and> \<not> isInitialized this
       \<and> run this sched repos fn concurrency rt3 =
           (Rejected (Error ''Workspace has not been initialized, run init() first.''), rt3)
       \<and> startNewBranch this env sched repos newBranch rt3 =
           (Rejected (Error ''Workspace has not been initialized, run init() first.''), rt3)
       \<and> commitChanges this env sched repos msg rt3 =
           (Rejected (Error ''Workspace has not been initialized, run init() first.''), rt3)
       \<and> pushChangesToGithub this env sched repos pushToBranch forcePush rt3 =
           (Rejected (Error ''Workspace has not been initialized, run init() first.''), rt3)
       \<and> publishPackagesToNpm this env sched repos distTag rt3 =
           (Rejected (Error ''Workspace has not been initialized, run init() first.''), rt3)"
proof -
  have un: "\<not> isInitialized this"
    using assms(1) by (rule init_repo_phases_uninitialized)
  have "init_phases this env scheds patterns options rt =
          (Rejected e, rt1\<lparr>trace := trace rt1 @ [Exec (wdir this) ''bower'' [''install'', ''-F''] (1000 * 1024) (Inl e)],
                world := w2\<rparr>)"
    using assms(2) by (simp add: init_phases_after_repo_phases [OF assms(1)] invoke_def)
  then have "init this env scheds patterns options rt =
           (Rejected e, this,
            rt1\<lparr>trace := trace rt1 @ [Exec (wdir this) ''bower'' [''install'', ''-F''] (1000 * 1024) (Inl e)],
                world := w2\<rparr>)"
    by (simp add: init_def)
  with un show ?thesis
    by (simp add: run_def startNewBranch_def commitChanges_def pushChangesToGithub_def
        publishPackagesToNpm_def assertInitialized_def)
qed

lemma perform_monotone:
  assumes "perform env op this rt = (ok, this', rt')"
  shows "(isInitialized this \<longrightarrow> isInitialized this')
       \<and> (\<not> isInitialized this \<and> isInitialized this' \<longrightarrow>
            (\<exists>scheds patterns opts x rt6.
               op = Init scheds patterns opts \<and> ok
               \<and> init_repo_phases this env scheds patterns opts rt = (Fulfilled x, rt6)
               \<and> installWorkspaceDependencies this env rt6 = (Fulfilled (), rt')
               \<and> this' = this\<lparr>initializedRepos := Some (workspaceRepos (fst x))\<rparr>))"
proof (cases op)
  case (Init scheds patterns opts)
  obtain r where run: "init this env scheds patterns opts rt = (r, this', rt')" and ok: "ok = fulfilled r"
    using assms Init by (auto split: prod.splits)
  show ?thesis
  proof (cases r)
    case (Fulfilled result)
    then obtain history where ph: "init_phases this env scheds patterns opts rt = (Fulfilled (result, history), rt')"
      and this': "this' = this\<lparr>initializedRepos := Some (workspaceRepos result)\<rparr>"
      using run by (auto simp: init_def split: prod.splits promise.splits)
    obtain x rt6 where rp: "init_repo_phases this env scheds patterns opts rt = (Fulfilled x, rt6)"
      and inst: "await (installWorkspaceDependencies this env) (\<lambda>u rt'. (Fulfilled x, rt')) rt6 = (Fulfilled (result, history), rt')"
      using ph unfolding init_phases_def by (blast dest: await_Fulfilled)
    from inst have "installWorkspaceDependencies this env rt6 = (Fulfilled (), rt')" and "x = (result, history)"
      by (auto dest!: await_Fulfilled)
    with rp this' Init ok Fulfilled show ?thesis
      by (auto simp: isInitialized_def)
  next
    case (Rejected e)
    with run have "this' = this" by (auto dest: init_not_Fulfilled)
    then show ?thesis by simp
  next
    case Pending
    with run have "this' = this" by (auto dest: init_not_Fulfilled)
    then show ?thesis by simp
  qed
qed (use assms in \<open>auto split: prod.splits\<close>)

text \<open>
  Claim C10. A Workspace is not initialized when it is constructed. No operation of the
  class takes an initialized Workspace to an uninitialized one. An operation that takes
  an uninitialized Workspace to an initialized one is a call of \<open>init\<close> whose promise
  is fulfilled: its phases up to the configuration of bower completed, the installation
  of the dependencies was fulfilled after them, and only then was the field assigned,
  with the final working set.
\<close>

theorem isInitialized_monotonic:
  "\<not> isInitialized (Workspace_new options)
   \<and> (perform env op this rt = (ok, this', rt') \<longrightarrow>
        (isInitialized this \<longrightarrow> isInitialized this')
        \<and> (\<not> isInitialized this \<and> isInitialized this' \<longrightarrow>
             (\<exists>scheds patterns opts x rt6.
                op = Init scheds patterns opts \<and> ok
                \<and> init_repo_phases this env scheds patterns opts rt = (Fulfilled x, rt6)
                \<and> installWorkspaceDependencies this env rt6 = (Fulfilled (), rt')
                \<and> this' = this\<lparr>initializedRepos := Some (workspaceRepos (fst x))\<rparr>)))"
  using perform_monotone [of env op this rt ok this' rt']
  by (simp add: Workspace_new_def isInitialized_def)


lemma demo_repo_phases_installFails:
  "fst (init_repo_phases demoWorkspace installFails inOrder demoPatterns None demoRuntime) =
     Fulfilled (\<lparr>workspaceRepos = abc, failedWorkspaceRepos = []\<rparr>,
                [(abc, []), (abc, []), (abc, []), (abc, [])])"
  by (simp add: demo_defs installFails_def abc_def)

theorem install_failure_is_thrown_witness:
  "init_repo_phases demoWorkspace installFails inOrder demoPatterns None demoRuntime =
     (Fulfilled (\<lparr>workspaceRepos = abc, failedWorkspaceRepos = []\<rparr>,
                 [(abc, []), (abc, []), (abc, []), (abc, [])]),
      snd (init_repo_phases demoWorkspace installFails inOrder demoPatterns None demoRuntime))
   \<and> exec installFails (wdir demoWorkspace) ''bower'' [''install'', ''-F''] (1000 * 1024)
        (world (snd (init_repo_phases demoWorkspace installFails inOrder demoPatterns None demoRuntime))) =
       (Inl (Error ''bower: ENOENT''), ())
   \<and> init demoWorkspace installFails inOrder demoPatterns None demoRuntime =
       (Rejected (Error ''bower: ENOENT''), demoWorkspace,
        (snd (init_repo_phases demoWorkspace installFails inOrder demoPatterns None demoRuntime))
          \<lparr>trace := trace (snd (init_repo_phases demoWorkspace installFails inOrder demoPatterns None demoRuntime))
             @ [Exec (wdir demoWorkspace) ''bower'' [''install'', ''-F''] (1000 * 1024) (Inl (Error ''bower: ENOENT''))],
           world := ()\<rparr>)
   \<and> \<not> isInitialized demoWorkspace
   \<and> run demoWorkspace [] abc (\<lambda>repo w. (Inr (), w)) None demoRuntime =
       (Rejected (Error ''Workspace has not been initialized, run init() first.''), demoRuntime)
   \<and> startNewBranch demoWorkspace installFails [] abc ''release'' demoRuntime =
       (Rejected (Error ''Workspace has not been initialized, run init() first.''), demoRuntime)
   \<and> commitChanges demoWorkspace installFails [] abc ''bump'' demoRuntime =
       (Rejected (Error ''Workspace has not been initialized, run init() first.''), demoRuntime)
   \<and> pushChangesToGithub demoWorkspace installFails [] abc None None demoRuntime =
       (Rejected (Error ''Workspace has not been initialized, run init() first.''), demoRuntime)
   \<and> publishPackagesToNpm demoWorkspace installFails [] abc None demoRuntime =
       (Rejected (Error ''Workspace has not been initialized, run init() first.''), demoRuntime)"
proof -
  have phases: "init_repo_phases demoWorkspace installFails inOrder demoPatterns None demoRuntime =
     (Fulfilled (\<lparr>workspaceRepos = abc, failedWorkspaceRepos = []\<rparr>,
                 [(abc, []), (abc, []), (abc, []), (abc, [])]),
      snd (init_repo_phases demoWorkspace installFails inOrder demoPatterns None demoRuntime))"
    using demo_repo_phases_installFails by (simp add: prod_eq_iff)
  have install: "exec installFails (wdir demoWorkspace) ''bower'' [''install'', ''-F''] (1000 * 1024)
        (world (snd (init_repo_phases demoWorkspace installFails inOrder demoPatterns None demoRuntime))) =
       (Inl (Error ''bower: ENOENT''), ())"
    by (simp add: installFails_def)
  from install_failure_is_thrown [OF phases install] phases install show ?thesis
    by blast
qed

theorem isInitialized_monotonic_witness:
  "\<not> isInitialized (Workspace_new \<lparr>token = ''token'', optdir = ''ws''\<rparr>)
   \<and> perform demoEnv (Init inOrder demoPatterns None) demoWorkspace demoRuntime =
       (True, fst (snd (perform demoEnv (Init inOrder demoPatterns None) demoWorkspace demoRuntime)),
        snd (snd (perform demoEnv (Init inOrder demoPatterns None) demoWorkspace demoRuntime)))
   \<and> \<not> isInitialized demoWorkspace
   \<and> isInitialized (fst (snd (perform demoEnv (Init inOrder demoPatterns None) demoWorkspace demoRuntime)))
   \<and> (\<exists>x rt6.
        init_repo_phases demoWorkspace demoEnv inOrder demoPatterns None demoRuntime = (Fulfilled x, rt6)
        \<and> installWorkspaceDependencies demoWorkspace demoEnv rt6 =
            (Fulfilled (), snd (snd (perform demoEnv (Init inOrder demoPatterns None) demoWorkspace demoRuntime)))
        \<and> fst (snd (perform demoEnv (Init inOrder demoPatterns None) demoWorkspace demoRuntime)) =
            demoWorkspace\<lparr>initializedRepos := Some (workspaceRepos (fst x))\<rparr>)"
proof -
  have run: "init demoWorkspace demoEnv inOrder demoPatterns None demoRuntime =
     (Fulfilled \<lparr>workspaceRepos = [demoRepo 0 ''A'', demoRepo 1 ''B'', demoRepo 2 ''C''],
                 failedWorkspaceRepos = []\<rparr>,
      fst (snd (init demoWorkspace demoEnv inOrder demoPatterns None demoRuntime)),
      snd (snd (init demoWorkspace demoEnv inOrder demoPatterns None demoRuntime)))"
    using demo_init by (simp add: prod_eq_iff)
  have after: "isInitialized (fst (snd (init demoWorkspace demoEnv inOrder demoPatterns None demoRuntime)))"
    using init_Fulfilled_initialized [OF run] by (rule conjunct2)
  have p: "perform demoEnv (Init inOrder demoPatterns None) demoWorkspace demoRuntime =
       (True, fst (snd (perform demoEnv (Init inOrder demoPatterns None) demoWorkspace demoRuntime)),
        snd (snd (perform demoEnv (Init inOrder demoPatterns None) demoWorkspace demoRuntime)))"
    using demo_init by (simp add: case_prod_beta)
  have after': "isInitialized (fst (snd (perform demoEnv (Init inOrder demoPatterns None) demoWorkspace demoRuntime)))"
    using after by (simp add: case_prod_beta)
  have before: "\<not> isInitialized demoWorkspace"
    by (simp add: demoWorkspace_def Workspace_new_def isInitialized_def)
  from isInitialized_monotonic [of "\<lparr>token = ''token'', optdir = ''ws''\<rparr>" demoEnv "Init inOrder demoPatterns None"
      demoWorkspace demoRuntime True
      "fst (snd (perform demoEnv (Init inOrder demoPatterns None) demoWorkspace demoRuntime))"
      "snd (snd (perform demoEnv (Init inOrder demoPatterns None) demoWorkspace demoRuntime))"]
    p before after'
  show ?thesis
    by blast
qed

section \<open>The working set and the ledger across the phases\<close>


lemma settle_Fulfilled [simp]: "settle r = Fulfilled x \<longleftrightarrow> r = Inr x"
  by (cases r) auto

lemma openWorkspaceRepos_facts:
  "openWorkspaceRepos this env rs rt = (repos, rt') \<Longrightarrow>
     map oid repos = [next_oid rt ..< next_oid rt + length rs]
     \<and> map github repos = rs
     \<and> (\<forall>repo \<in> set repos. opened_by this env repo)
     \<and> rt' = rt\<lparr>next_oid := next_oid rt + length rs\<rparr>"
proof (induction rs arbitrary: rt repos rt')
  case Nil
  then show ?case by simp
next
  case (Cons r rs)
  obtain repo rt1 where one: "openWorkspaceRepo this env r rt = (repo, rt1)"
    by (cases "openWorkspaceRepo this env r rt")
  obtain rest rt2 where more: "openWorkspaceRepos this env rs rt1 = (rest, rt2)"
    by (cases "openWorkspaceRepos this env rs rt1")
  have repos: "repos = repo # rest" and rt': "rt' = rt2"
    using Cons.prems one more by simp_all
  have repo: "oid repo = next_oid rt" "github repo = r" "opened_by this env repo"
    and rt1: "rt1 = rt\<lparr>next_oid := Suc (next_oid rt)\<rparr>"
    using one by (auto simp: openWorkspaceRepo_def opened_by_def Let_def)
  have upt: "[next_oid rt ..< next_oid rt + length (r # rs)]
               = next_oid rt # [Suc (next_oid rt) ..< Suc (next_oid rt) + length rs]"
    by (simp add: upt_conv_Cons del: upt_Suc)
  have ih: "map oid rest = [Suc (next_oid rt) ..< Suc (next_oid rt) + length rs]
     \<and> map github rest = rs
     \<and> (\<forall>repo \<in> set rest. opened_by this env repo)
     \<and> rt2 = rt1\<lparr>next_oid := next_oid rt1 + length rs\<rparr>"
    using Cons.IH [OF more] by (simp add: rt1)
  have "map oid repos = [next_oid rt ..< next_oid rt + length (r # rs)]"
    using ih repo by (simp only: upt repos list.map)
  moreover have "map github repos = r # rs"
    using ih repo by (simp add: repos)
  moreover have "\<forall>repo \<in> set repos. opened_by this env repo"
    using ih repo by (simp add: repos)
  moreover have "rt' = rt\<lparr>next_oid := next_oid rt + length (r # rs)\<rparr>"
    using ih by (simp add: rt' rt1)
  ultimately show ?case by blast
qed



lemma collectFailures_Nil [simp]: "collectFailures c [] = c"
  by (simp add: collectFailures_def)

lemma collectFailures_Cons [simp]:
  "collectFailures c ((k, v) # f) = collectFailures (AList.update k v c) f"
  by (simp add: collectFailures_def)





lemma configure_Fulfilled:
  assumes "configureBowerWorkspace this env sched repos rt = (Fulfilled results, rt')"
  shows "\<exists>bowerConfig rt1 bowerConfig' rt2.
           batchProcess sched repos (configureOp env) (fsConcurrencyPreset env) (bowerConfig, rt1)
             = (Fulfilled results, (bowerConfig', rt2))
           \<and> trace rt1 = trace rt @ [WriteFileSync (path_join env (wdir this) ''.bowerrc'') (Text bowerrc) (Inr ()),
                                     MergedBowerConfigsFromRepos repos (Inr bowerConfig)]
           \<and> trace rt' = trace rt2 @ [WriteFileSync (path_join env (wdir this) ''bower.json'') (JSON_stringify bowerConfig') (Inr ())]"
proof -
  obtain u rt0 where w: "invokeP (WriteFileSync (path_join env (wdir this) ''.bowerrc'') (Text bowerrc))
          (writeFileSync env (path_join env (wdir this) ''.bowerrc'') (Text bowerrc)) rt = (Fulfilled u, rt0)"
    and k1: "await (invokeP (MergedBowerConfigsFromRepos repos) (mergedBowerConfigsFromRepos env repos))
          (\<lambda>bowerConfig rt1.
             case batchProcess sched repos (configureOp env) (fsConcurrencyPreset env) (bowerConfig, rt1) of
               (Pending, (bowerConfig', rt2)) \<Rightarrow> (Pending, rt2)
             | (Rejected e, (bowerConfig', rt2)) \<Rightarrow> (Rejected e, rt2)
             | (Fulfilled results, (bowerConfig', rt2)) \<Rightarrow>
                 await
                   (invokeP (WriteFileSync (path_join env (wdir this) ''bower.json'') (JSON_stringify bowerConfig'))
                      (writeFileSync env (path_join env (wdir this) ''bower.json'') (JSON_stringify bowerConfig')))
                   (\<lambda>u rt3. (Fulfilled results, rt3))
                   rt2) rt0 = (Fulfilled results, rt')"
    using assms unfolding configureBowerWorkspace_def by (blast dest: await_Fulfilled)
  obtain bowerConfig rt1 where m: "invokeP (MergedBowerConfigsFromRepos repos) (mergedBowerConfigsFromRepos env repos) rt0 = (Fulfilled bowerConfig, rt1)"
    and k2: "(case batchProcess sched repos (configureOp env) (fsConcurrencyPreset env) (bowerConfig, rt1) of
               (Pending, (bowerConfig', rt2)) \<Rightarrow> (Pending, rt2)
             | (Rejected e, (bowerConfig', rt2)) \<Rightarrow> (Rejected e, rt2)
             | (Fulfilled results, (bowerConfig', rt2)) \<Rightarrow>
                 await
                   (invokeP (WriteFileSync (path_join env (wdir this) ''bower.json'') (JSON_stringify bowerConfig'))
                      (writeFileSync env (path_join env (wdir this) ''bower.json'') (JSON_stringify bowerConfig')))
                   (\<lambda>u rt3. (Fulfilled results, rt3))
                   rt2) = (Fulfilled results, rt')"
    using k1 by (blast dest: await_Fulfilled)
  obtain p bowerConfig' rt2 where b: "batchProcess sched repos (configureOp env) (fsConcurrencyPreset env) (bowerConfig, rt1) = (p, (bowerConfig', rt2))"
    by (metis surj_pair)
  have t0: "trace rt0 = trace rt @ [WriteFileSync (path_join env (wdir this) ''.bowerrc'') (Text bowerrc) (Inr ())]"
    using w by (auto simp: invokeP_def invoke_def split: prod.splits sum.splits)
  have t1: "trace rt1 = trace rt0 @ [MergedBowerConfigsFromRepos repos (Inr bowerConfig)]"
    using m by (auto simp: invokeP_def invoke_def split: prod.splits sum.splits)
  show ?thesis
  proof (cases p)
    case (Fulfilled res)
    with k2 b have k3: "await
                   (invokeP (WriteFileSync (path_join env (wdir this) ''bower.json'') (JSON_stringify bowerConfig'))
                      (writeFileSync env (path_join env (wdir this) ''bower.json'') (JSON_stringify bowerConfig')))
                   (\<lambda>u rt3. (Fulfilled res, rt3))
                   rt2 = (Fulfilled results, rt')"
      by simp
    then have "res = results"
      and "trace rt' = trace rt2 @ [WriteFileSync (path_join env (wdir this) ''bower.json'') (JSON_stringify bowerConfig') (Inr ())]"
      by (auto simp: await_def invokeP_def invoke_def split: prod.splits sum.splits promise.splits)
    with b Fulfilled t0 t1 show ?thesis by auto
  next
    case (Rejected e)
    with k2 b show ?thesis by simp
  next
    case Pending
    with k2 b show ?thesis by simp
  qed
qed


lemma init_repo_phases_Fulfilled:
  assumes "init_repo_phases this env scheds patterns options rt = (Fulfilled (result, history), rt')"
  shows "\<exists>rt1 githubRepos rt2 ws0 rt3 prepared rt4 r1 rt5 r2.
     initValidate this env rt = (Fulfilled (), rt1)
   \<and> determineGitHubRepos env (includePatterns patterns) (excludePatterns patterns) rt1 = (Fulfilled githubRepos, rt2)
   \<and> openWorkspaceRepos this env githubRepos rt2 = (ws0, rt3)
   \<and> prepareWorkspaceFolders this env (prepareSched scheds) ws0 options rt3 = (Fulfilled prepared, rt4)
   \<and> cloneOrUpdateWorkspaceRepos env (cloneSched scheds) ws0 rt4 = (Fulfilled r1, rt5)
   \<and> configureBowerWorkspace this env (configureSched scheds) (map fst (successes r1)) rt5 = (Fulfilled r2, rt')
   \<and> result = \<lparr>workspaceRepos = map fst (successes r2),
                 failedWorkspaceRepos = collectFailures (collectFailures [] (failures r1)) (failures r2)\<rparr>
   \<and> history = [(ws0, []), (ws0, []),
                 (map fst (successes r1), collectFailures [] (failures r1)),
                 (map fst (successes r2), collectFailures (collectFailures [] (failures r1)) (failures r2))]"
  using assms
  by (auto simp: init_repo_phases_def await_def Let_def split: prod.splits promise.splits)


lemma init_phases_Fulfilled:
  assumes "init_phases this env scheds patterns options rt = (Fulfilled x, rt')"
  shows "\<exists>rt6. init_repo_phases this env scheds patterns options rt = (Fulfilled x, rt6)
           \<and> installWorkspaceDependencies this env rt6 = (Fulfilled (), rt')"
  using assms
  by (auto simp: init_phases_def await_def split: prod.splits promise.splits)

lemma subset_keys:
  assumes "fst ` set s \<union> fst ` set f = A"
  shows "set (map fst s) \<subseteq> A" and "fst ` set f \<subseteq> A"
  using assms by auto











section \<open>A failure of the folder preparation\<close>

text \<open>
  Claim C2. The claim: a repo whose cleanup throws during the preparation of the
  folders gets an entry in the ledger that \<open>init\<close> returns and is kept out of the later
  phases and of the final working set. The code: \<open>init\<close> awaits
  \<open>_prepareWorkspaceFolders\<close> and drops its value, where the two later phases pass
  theirs to \<open>collectFailures\<close> and narrow the working set. In the world where the
  folder \<open>ws/A\<close> exists, is no clone and cannot be removed, the batch of the preparation
  records the failure of \<open>A\<close>; \<open>init\<close> nevertheless clones \<open>A\<close>, reads its head commit,
  and returns the working set \<open>[A, B, C]\<close> with an empty ledger.
\<close>

theorem prepare_failure_is_lost:
  "fst (prepareWorkspaceFolders demoWorkspace cleanupFails [] abc None demoRuntime) =
     Fulfilled \<lparr>successes = [(demoRepo 1 ''B'', ()), (demoRepo 2 ''C'', ())],
                failures = [(demoRepo 0 ''A'', Error ''EPERM'')]\<rparr>
   \<and> fst (init demoWorkspace cleanupFails inOrder demoPatterns None demoRuntime) =
       Fulfilled \<lparr>workspaceRepos = abc, failedWorkspaceRepos = []\<rparr>
   \<and> Rimraf ''ws/A'' (Inl (Error ''EPERM''))
       \<in> set (trace (snd (snd (init demoWorkspace cleanupFails inOrder demoPatterns None demoRuntime))))
   \<and> GitCall (GitRepo ''ws/A'') (Clone ''git://Polymer/A'') (Inr ([], []))
       \<in> set (trace (snd (snd (init demoWorkspace cleanupFails inOrder demoPatterns None demoRuntime))))
   \<and> GetHeadSha (GitRepo ''ws/A'') (Inr ''sha-ws/A'')
       \<in> set (trace (snd (snd (init demoWorkspace cleanupFails inOrder demoPatterns None demoRuntime))))"
  by (simp add: demo_defs cleanupFails_def abc_def)

section \<open>A candidate whose metadata cannot be fetched\<close>













section \<open>The manifest written by the configuration phase\<close>


lemma batchProcess_invariant:
  assumes "batchProcess sched items op c s = (Fulfilled res, s')"
    and "P items \<lparr>successes = [], failures = []\<rparr> s"
    and "\<And>xs i acc s out s1. P xs acc s \<Longrightarrow> i < length xs \<Longrightarrow> op (xs ! i) s = (out, s1) \<Longrightarrow>
           P (take i xs @ drop (Suc i) xs) (record_outcome (xs ! i) out acc) s1"
  shows "P [] res s'"
proof (rule batch_loop_invariant [OF assms(1) [unfolded batchProcess_def]])
  show "P (take c items @ drop c items) \<lparr>successes = [], failures = []\<rparr> s"
    using assms(2) by simp
qed (rule assms(3))


lemma configureOp_step:
  assumes op: "configureOp env item (manifest, rt) = (out, (manifest1, rt1))"
    and tr: "trace rt = T @ evs"
    and wf: "opened_by this env item" "\<forall>repo \<in> fst ` set (successes acc). opened_by this env repo"
    and inv: "\<forall>repo \<in> fst ` set (successes acc). pinned repo evs manifest"
  shows "\<exists>r. trace rt1 = T @ (evs @ [GetHeadSha (git item) r])
           \<and> (\<forall>repo \<in> fst ` set (successes (record_outcome item out acc)).
                 pinned repo (evs @ [GetHeadSha (git item) r]) manifest1)"
proof -
  obtain r w1 where call: "getHeadSha env (git item) (world rt) = (r, w1)"
    by (cases "getHeadSha env (git item) (world rt)")
  have rt1: "trace rt1 = T @ (evs @ [GetHeadSha (git item) r])"
    using op call tr by (cases r) (auto simp: configureOp_def invoke_def)
  show ?thesis
  proof (cases r)
    case (Inl e)
    then have "out = Inl e" and "manifest1 = manifest"
      using op call by (auto simp: configureOp_def invoke_def)
    then have "\<forall>repo \<in> fst ` set (successes (record_outcome item out acc)).
                 pinned repo (evs @ [GetHeadSha (git item) r]) manifest1"
      using inv by (auto simp: record_outcome_def pinned_def)
    with rt1 show ?thesis by blast
  next
    case (Inr sha)
    then have out: "out = Inr ()"
      and m1: "manifest1 = manifest\<lparr>dependencies :=
                    AList.update (name (github item)) (''./'' @ name (github item) @ ''#'' @ sha)
                      (dependencies manifest)\<rparr>"
      using op call by (auto simp: configureOp_def invoke_def)
    have keys: "fst ` set (successes (record_outcome item out acc)) = insert item (fst ` set (successes acc))"
      by (simp add: out record_outcome_def AList.dom_update)
    have "pinned repo (evs @ [GetHeadSha (git item) r]) manifest1"
      if "repo \<in> insert item (fst ` set (successes acc))" for repo
    proof (cases "name (github repo) = name (github item)")
      case True
      have "opened_by this env repo"
        using that wf by blast
      then have "git repo = git item"
        using wf(1) True by (simp add: opened_by_def)
      then show ?thesis
        using True Inr by (auto simp: pinned_def m1 AList.update_conv')
    next
      case False
      then have "repo \<in> fst ` set (successes acc)"
        using that by auto
      then have "pinned repo evs manifest"
        using inv by blast
      then show ?thesis
        using False by (auto simp: pinned_def m1 AList.update_conv')
    qed
    with rt1 keys show ?thesis by blast
  qed
qed


lemma successes_record_outcome:
  "fst ` set (successes (record_outcome item out acc)) \<subseteq> insert item (fst ` set (successes acc))"
  by (cases out) (auto simp: record_outcome_def AList.dom_update)

lemma configure_batch_pins:
  assumes run: "batchProcess sched repos (configureOp env) c (bowerConfig, rt1) = (Fulfilled results, (manifest, rt2))"
    and wf: "\<forall>repo \<in> set repos. opened_by this env repo"
  shows "\<exists>evs. trace rt2 = trace rt1 @ evs
           \<and> length evs = length repos
           \<and> (\<forall>ev \<in> set evs. \<exists>repo \<in> set repos. \<exists>r. ev = GetHeadSha (git repo) r)
           \<and> (\<forall>repo \<in> fst ` set (successes results). pinned repo evs manifest)"
proof -
  define P where "P = (\<lambda>(xs :: WorkspaceRepo list) (acc :: (WorkspaceRepo, unit) BatchProcessResponse)
      (s :: BowerConfig \<times> 'a runtime).
      (\<forall>repo \<in> set xs \<union> fst ` set (successes acc). opened_by this env repo)
      \<and> set xs \<subseteq> set repos
      \<and> (\<exists>evs. trace (snd s) = trace rt1 @ evs
             \<and> length evs + length xs = length repos
             \<and> (\<forall>ev \<in> set evs. \<exists>repo \<in> set repos. \<exists>r. ev = GetHeadSha (git repo) r)
             \<and> (\<forall>repo \<in> fst ` set (successes acc). pinned repo evs (fst s))))"
  have "P [] results (manifest, rt2)"
  proof (rule batchProcess_invariant [OF run])
    show "P repos \<lparr>successes = [], failures = []\<rparr> (bowerConfig, rt1)"
      using wf by (simp add: P_def)
  next
    fix xs :: "WorkspaceRepo list" and i and acc :: "(WorkspaceRepo, unit) BatchProcessResponse"
      and s s1 :: "BowerConfig \<times> 'a runtime" and out :: "error + unit"
    assume inv: "P xs acc s" and i: "i < length xs" and op: "configureOp env (xs ! i) s = (out, s1)"
    obtain m rt where s: "s = (m, rt)" by (cases s)
    obtain m1 rt' where s1: "s1 = (m1, rt')" by (cases s1)
    from inv obtain evs where tr: "trace rt = trace rt1 @ evs"
      and len: "length evs + length xs = length repos"
      and heads: "\<forall>ev \<in> set evs. \<exists>repo \<in> set repos. \<exists>r. ev = GetHeadSha (git repo) r"
      and pins: "\<forall>repo \<in> fst ` set (successes acc). pinned repo evs m"
      and wfs: "\<forall>repo \<in> fst ` set (successes acc). opened_by this env repo"
      and wfx: "\<forall>repo \<in> set xs. opened_by this env repo"
      and sub: "set xs \<subseteq> set repos"
      by (auto simp: P_def s)
    have item: "opened_by this env (xs ! i)"
      using wfx i by simp
    have item_in: "xs ! i \<in> set repos"
      using sub i by auto
    obtain r where tr1: "trace rt' = trace rt1 @ (evs @ [GetHeadSha (git (xs ! i)) r])"
      and pins1: "\<forall>repo \<in> fst ` set (successes (record_outcome (xs ! i) out acc)).
                    pinned repo (evs @ [GetHeadSha (git (xs ! i)) r]) m1"
      using configureOp_step [OF op [unfolded s s1] tr item wfs pins] by blast
    define evs1 where "evs1 = evs @ [GetHeadSha (git (xs ! i)) r]"
    define S where "S = fst ` set (successes acc)"
    define S' where "S' = fst ` set (successes (record_outcome (xs ! i) out acc))"
    define X' where "X' = set (take i xs @ drop (Suc i) xs)"
    have X'sub: "X' \<subseteq> set xs"
      unfolding X'_def using set_without_nth [OF i] by blast
    moreover have "S' \<subseteq> insert (xs ! i) S"
      unfolding S_def S'_def by (rule successes_record_outcome)
    moreover have "\<forall>repo \<in> S. opened_by this env repo"
      using wfs by (simp add: S_def)
    ultimately have "\<forall>repo \<in> X' \<union> S'. opened_by this env repo"
      using wfx item by blast
    then have a: "\<forall>repo \<in> set (take i xs @ drop (Suc i) xs)
                  \<union> fst ` set (successes (record_outcome (xs ! i) out acc)). opened_by this env repo"
      by (simp only: X'_def S'_def)
    have a2: "set (take i xs @ drop (Suc i) xs) \<subseteq> set repos"
      using X'sub sub unfolding X'_def by (rule subset_trans)
    have len1: "length evs1 + length (take i xs @ drop (Suc i) xs) = length repos"
      using len i by (simp add: evs1_def)
    have heads1: "\<forall>ev \<in> set evs1. \<exists>repo \<in> set repos. \<exists>r. ev = GetHeadSha (git repo) r"
      using heads item_in by (auto simp: evs1_def)
    have b: "\<exists>evs. trace (snd s1) = trace rt1 @ evs
             \<and> length evs + length (take i xs @ drop (Suc i) xs) = length repos
             \<and> (\<forall>ev \<in> set evs. \<exists>repo \<in> set repos. \<exists>r. ev = GetHeadSha (git repo) r)
             \<and> (\<forall>repo \<in> fst ` set (successes (record_outcome (xs ! i) out acc)). pinned repo evs (fst s1))"
      unfolding s1 fst_conv snd_conv
    proof (rule exI [of _ evs1])
      show "trace rt' = trace rt1 @ evs1
          \<and> length evs1 + length (take i xs @ drop (Suc i) xs) = length repos
          \<and> (\<forall>ev \<in> set evs1. \<exists>repo \<in> set repos. \<exists>r. ev = GetHeadSha (git repo) r)
          \<and> (\<forall>repo \<in> fst ` set (successes (record_outcome (xs ! i) out acc)). pinned repo evs1 m1)"
        using tr1 len1 heads1 pins1 unfolding evs1_def by (intro conjI)
    qed
    show "P (take i xs @ drop (Suc i) xs) (record_outcome (xs ! i) out acc) s1"
      unfolding P_def using a a2 b by (intro conjI)
  qed
  then show ?thesis
    by (simp add: P_def)
qed

text \<open>
  Claim C5. When the configuration phase completes on repos opened by the workspace,
  the events of the phase are, in this order: the write of \<open>.bowerrc\<close>, the merge of
  the manifests, the events of the batch, and last the successful write of \<open>bower.json\<close>
  with the manifest as it stands after the batch. The events of the batch are one read
  of the head commit for each repo of the batch and nothing else: the phase writes
  \<open>bower.json\<close> once, after the last operation of the batch. For every repo among the
  successes of the batch, that written manifest maps the package name of the repo to
  \<open>./name#sha\<close>, where \<open>sha\<close> is a head commit that the batch read from the git session
  of the repo. This holds for every schedule and every concurrency preset: an entry
  written by one operation is not lost to another.
\<close>

theorem configure_pins_each_repo:
  assumes "configureBowerWorkspace this env sched repos rt = (Fulfilled results, rt')"
    and "\<forall>repo \<in> set repos. opened_by this env repo"
  shows "\<exists>bowerConfig evs manifest.
           trace rt' =
             trace rt
             @ [WriteFileSync (path_join env (wdir this) ''.bowerrc'') (Text bowerrc) (Inr ()),
                MergedBowerConfigsFromRepos repos (Inr bowerConfig)]
             @ evs
             @ [WriteFileSync (path_join env (wdir this) ''bower.json'') (JSON_stringify manifest) (Inr ())]
           \<and> length evs = length repos
           \<and> (\<forall>ev \<in> set evs. \<exists>repo \<in> set repos. \<exists>r. ev = GetHeadSha (git repo) r)
           \<and> (\<forall>repo \<in> fst ` set (successes results).
                 \<exists>sha. GetHeadSha (git repo) (Inr sha) \<in> set evs
                   \<and> map_of (dependencies manifest) (name (github repo))
                       = Some (''./'' @ name (github repo) @ ''#'' @ sha))"
proof -
  obtain bowerConfig rt1 manifest rt2 where
    batch: "batchProcess sched repos (configureOp env) (fsConcurrencyPreset env) (bowerConfig, rt1)
             = (Fulfilled results, (manifest, rt2))"
    and t1: "trace rt1 = trace rt @ [WriteFileSync (path_join env (wdir this) ''.bowerrc'') (Text bowerrc) (Inr ()),
                                     MergedBowerConfigsFromRepos repos (Inr bowerConfig)]"
    and t': "trace rt' = trace rt2 @ [WriteFileSync (path_join env (wdir this) ''bower.json'') (JSON_stringify manifest) (Inr ())]"
    using configure_Fulfilled [OF assms(1)] by blast
  obtain evs where t2: "trace rt2 = trace rt1 @ evs"
    and len: "length evs = length repos"
    and heads: "\<forall>ev \<in> set evs. \<exists>repo \<in> set repos. \<exists>r. ev = GetHeadSha (git repo) r"
    and pins: "\<forall>repo \<in> fst ` set (successes results). pinned repo evs manifest"
    using configure_batch_pins [OF batch assms(2)] by blast
  have "trace rt' =
             trace rt
             @ [WriteFileSync (path_join env (wdir this) ''.bowerrc'') (Text bowerrc) (Inr ()),
                MergedBowerConfigsFromRepos repos (Inr bowerConfig)]
             @ evs
             @ [WriteFileSync (path_join env (wdir this) ''bower.json'') (JSON_stringify manifest) (Inr ())]"
    by (simp add: t' t2 t1)
  moreover have "\<forall>repo \<in> fst ` set (successes results).
                 \<exists>sha. GetHeadSha (git repo) (Inr sha) \<in> set evs
                   \<and> map_of (dependencies manifest) (name (github repo))
                       = Some (''./'' @ name (github repo) @ ''#'' @ sha)"
    using pins unfolding pinned_def .
  ultimately show ?thesis
    using len heads by (intro exI conjI)
qed


lemma demo_configure:
  "fst (configureBowerWorkspace demoWorkspace demoEnv [1] abc demoRuntime) =
     Fulfilled \<lparr>successes = [(demoRepo 1 ''B'', ()), (demoRepo 0 ''A'', ()), (demoRepo 2 ''C'', ())],
                failures = []\<rparr>
   \<and> trace (snd (configureBowerWorkspace demoWorkspace demoEnv [1] abc demoRuntime)) =
       [WriteFileSync ''ws/.bowerrc'' (Text bowerrc) (Inr ()),
        MergedBowerConfigsFromRepos abc (Inr \<lparr>dependencies = [], devDependencies = []\<rparr>),
        GetHeadSha (GitRepo ''ws/B'') (Inr ''sha-ws/B''),
        GetHeadSha (GitRepo ''ws/A'') (Inr ''sha-ws/A''),
        GetHeadSha (GitRepo ''ws/C'') (Inr ''sha-ws/C''),
        WriteFileSync ''ws/bower.json''
          (JSON_stringify \<lparr>dependencies = [(''B'', ''./B#sha-ws/B''), (''A'', ''./A#sha-ws/A''),
                                             (''C'', ''./C#sha-ws/C'')],
                           devDependencies = []\<rparr>)
          (Inr ())]"
  by (simp add: demo_defs abc_def)

theorem configure_pins_each_repo_witness:
  "configureBowerWorkspace demoWorkspace demoEnv [1] abc demoRuntime =
     (Fulfilled \<lparr>successes = [(demoRepo 1 ''B'', ()), (demoRepo 0 ''A'', ()), (demoRepo 2 ''C'', ())],
                 failures = []\<rparr>,
      snd (configureBowerWorkspace demoWorkspace demoEnv [1] abc demoRuntime))
   \<and> opened_by demoWorkspace demoEnv (demoRepo 0 ''A'')
   \<and> opened_by demoWorkspace demoEnv (demoRepo 1 ''B'')
   \<and> opened_by demoWorkspace demoEnv (demoRepo 2 ''C'')
   \<and> trace (snd (configureBowerWorkspace demoWorkspace demoEnv [1] abc demoRuntime)) =
       [WriteFileSync ''ws/.bowerrc'' (Text bowerrc) (Inr ()),
        MergedBowerConfigsFromRepos abc (Inr \<lparr>dependencies = [], devDependencies = []\<rparr>),
        GetHeadSha (GitRepo ''ws/B'') (Inr ''sha-ws/B''),
        GetHeadSha (GitRepo ''ws/A'') (Inr ''sha-ws/A''),
        GetHeadSha (GitRepo ''ws/C'') (Inr ''sha-ws/C''),
        WriteFileSync ''ws/bower.json''
          (JSON_stringify \<lparr>dependencies = [(''B'', ''./B#sha-ws/B''), (''A'', ''./A#sha-ws/A''),
                                             (''C'', ''./C#sha-ws/C'')],
                           devDependencies = []\<rparr>)
          (Inr ())]
   \<and> (\<exists>bowerConfig evs manifest.
         trace (snd (configureBowerWorkspace demoWorkspace demoEnv [1] abc demoRuntime)) =
           trace demoRuntime
           @ [WriteFileSync (path_join demoEnv (wdir demoWorkspace) ''.bowerrc'') (Text bowerrc) (Inr ()),
              MergedBowerConfigsFromRepos abc (Inr bowerConfig)]
           @ evs
           @ [WriteFileSync (path_join demoEnv (wdir demoWorkspace) ''bower.json'') (JSON_stringify manifest) (Inr ())]
         \<and> length evs = length abc
         \<and> (\<forall>ev \<in> set evs. \<exists>repo \<in> set abc. \<exists>r. ev = GetHeadSha (git repo) r)
         \<and> (\<forall>repo \<in> fst ` set (successes \<lparr>successes = [(demoRepo 1 ''B'', ()), (demoRepo 0 ''A'', ()), (demoRepo 2 ''C'', ())],
                 failures = []\<rparr>).
               \<exists>sha. GetHeadSha (git repo) (Inr sha) \<in> set evs
                 \<and> map_of (dependencies manifest) (name (github repo))
                     = Some (''./'' @ name (github repo) @ ''#'' @ sha)))"
proof -
  have run: "configureBowerWorkspace demoWorkspace demoEnv [1] abc demoRuntime =
     (Fulfilled \<lparr>successes = [(demoRepo 1 ''B'', ()), (demoRepo 0 ''A'', ()), (demoRepo 2 ''C'', ())],
                 failures = []\<rparr>,
      snd (configureBowerWorkspace demoWorkspace demoEnv [1] abc demoRuntime))"
    using demo_configure by (simp add: prod_eq_iff)
  have a: "opened_by demoWorkspace demoEnv (demoRepo 0 ''A'')"
    and b: "opened_by demoWorkspace demoEnv (demoRepo 1 ''B'')"
    and c: "opened_by demoWorkspace demoEnv (demoRepo 2 ''C'')"
    by (simp_all add: opened_by_def demoRepo_def demoEnv_def demoWorkspace_def Workspace_new_def
        info_of_def ref_of_def)
  have wf: "\<forall>repo \<in> set abc. opened_by demoWorkspace demoEnv repo"
    using a b c by (simp add: abc_def)
  have tr: "trace (snd (configureBowerWorkspace demoWorkspace demoEnv [1] abc demoRuntime)) =
       [WriteFileSync ''ws/.bowerrc'' (Text bowerrc) (Inr ()),
        MergedBowerConfigsFromRepos abc (Inr \<lparr>dependencies = [], devDependencies = []\<rparr>),
        GetHeadSha (GitRepo ''ws/B'') (Inr ''sha-ws/B''),
        GetHeadSha (GitRepo ''ws/A'') (Inr ''sha-ws/A''),
        GetHeadSha (GitRepo ''ws/C'') (Inr ''sha-ws/C''),
        WriteFileSync ''ws/bower.json''
          (JSON_stringify \<lparr>dependencies = [(''B'', ''./B#sha-ws/B''), (''A'', ''./A#sha-ws/A''),
                                             (''C'', ''./C#sha-ws/C'')],
                           devDependencies = []\<rparr>)
          (Inr ())]"
    using demo_configure by (rule conjunct2)
  note pins = configure_pins_each_repo [OF run wf]
  show ?thesis
    by (rule conjI [OF run conjI [OF a conjI [OF b conjI [OF c conjI [OF tr pins]]]]])
qed

text \<open>
  In a run of \<open>init\<close> that completes, the configuration phase ran on repos opened by
  the workspace, and the working set that \<open>init\<close> returns is the list of its successes.
\<close>

lemma init_configures_opened_repos:
  assumes "init_phases this env scheds patterns options rt = (Fulfilled (result, history), rt')"
  shows "\<exists>repos rt5 rt6 results.
           configureBowerWorkspace this env (configureSched scheds) repos rt5 = (Fulfilled results, rt6)
           \<and> (\<forall>repo \<in> set repos. opened_by this env repo)
           \<and> workspaceRepos result = map fst (successes results)"
proof -
  obtain rt6 where rp: "init_repo_phases this env scheds patterns options rt = (Fulfilled (result, history), rt6)"
    using init_phases_Fulfilled [OF assms] by blast
  from init_repo_phases_Fulfilled [OF rp]
  obtain githubRepos rt2 ws0 rt3 rt4 r1 rt5 r2 where
    opened: "openWorkspaceRepos this env githubRepos rt2 = (ws0, rt3)"
    and clone: "cloneOrUpdateWorkspaceRepos env (cloneSched scheds) ws0 rt4 = (Fulfilled r1, rt5)"
    and configure: "configureBowerWorkspace this env (configureSched scheds) (map fst (successes r1)) rt5
                      = (Fulfilled r2, rt6)"
    and result: "result = \<lparr>workspaceRepos = map fst (successes r2),
                 failedWorkspaceRepos = collectFailures (collectFailures [] (failures r1)) (failures r2)\<rparr>"
    by (elim exE conjE)
  have "fst ` set (successes r1) \<union> fst ` set (failures r1) = set ws0"
    using clone unfolding cloneOrUpdateWorkspaceRepos_def by (rule batchProcess_keys)
  then have "set (map fst (successes r1)) \<subseteq> set ws0"
    by auto
  moreover have "\<forall>repo \<in> set ws0. opened_by this env repo"
    using openWorkspaceRepos_facts [OF opened] by simp
  ultimately have "\<forall>repo \<in> set (map fst (successes r1)). opened_by this env repo"
    by blast
  moreover have "workspaceRepos result = map fst (successes r2)"
    by (simp add: result)
  ultimately show ?thesis
    using configure by blast
qed

end
